theory Spec2Isabelle
  imports Complex_Main "HOL-Library.Sublist"
begin

section \<open>The stream session of \<^verbatim>\<open>webrtc_stream.py\<close>\<close>

text \<open>
  \<^verbatim>\<open>class StreamStatus\<close> (lines 29-36) lists seven integer constants; the \<^verbatim>\<open>state\<close>
  slot of a stream only ever holds one of them.
\<close>

datatype StreamStatus =
  OFFLINE | STOPPING | DISABLED | STOPPED | CONNECTING | CONNECTED | INITIALIZING

fun status_code :: "StreamStatus \<Rightarrow> int" where
  "status_code OFFLINE = -90"
| "status_code STOPPING = -1"
| "status_code DISABLED = 0"
| "status_code STOPPED = 1"
| "status_code CONNECTING = 2"
| "status_code CONNECTED = 3"
| "status_code INITIALIZING = -2"

text \<open>The two option flags the session reads (\<^verbatim>\<open>self.options.audio\<close>, \<^verbatim>\<open>self.options.reconnect\<close>).\<close>

record WyzeStreamOptions =
  audio :: bool
  reconnect :: bool

text \<open>
  The peer connection as far as the session looks at it: the ICE state string that the
  transport library reports. The remux subprocess: the exit code \<^verbatim>\<open>poll()\<close> returns
  (\<open>None\<close> while it runs).
\<close>

record RTCPeerConnection =
  iceConnectionState :: string

record Popen =
  has_audio :: bool
  returncode :: "int option"

text \<open>
  Python values that travel through the signaling channel and the info snapshot:
  what \<^verbatim>\<open>json.loads\<close> returns (a dict is an association list, looked up from the
  front).
\<close>

datatype json =
  JNull | JBool bool | JNum real | JStr string | JArr "json list" | JObj "(string \<times> json) list"

text \<open>
  Exceptions, as far as the handlers tell them apart: \<^verbatim>\<open>except Exception\<close> catches all of
  them but \<open>CancelledError\<close>, which derives from \<^verbatim>\<open>BaseException\<close>.
\<close>

datatype exn =
  JSONDecodeError | UnicodeDecodeError | BinasciiError | TypeError | AttributeError
  | KeyError | RuntimeError | OtherException | CancelledError

fun is_Exception :: "exn \<Rightarrow> bool" where
  "is_Exception CancelledError = False"
| "is_Exception _ = True"

text \<open>
  \<^verbatim>\<open>KvsSignalingClient\<close> (kvs_signaling.py, slots at line 27). A callback takes the decoded
  value and either returns (\<open>None\<close>) or raises. \<open>ws\<close> tells whether the socket is open;
  the receive task is not a field of the model.
\<close>

record KvsSignalingClient =
  url :: string
  client_id :: string
  ws :: bool
  on_answer :: "(json \<Rightarrow> exn option) option"
  on_ice_candidate :: "(json \<Rightarrow> exn option) option"

text \<open>
  One stream together with the part of the outside world it acts on. The first group are
  the constructor's arguments, the second the slots of \<^verbatim>\<open>WebRtcStream\<close> (lines 47-54; a
  leading underscore is dropped), then the file names present under \<^verbatim>\<open>/tmp\<close>, then three
  histories that record effects in the order they happen: every value assigned to
  \<^verbatim>\<open>self.state\<close>, every delay passed to \<^verbatim>\<open>time.sleep\<close>, and the name of every thread
  started.
\<close>

record stream =
  uri :: string
  nickname :: string
  options :: WyzeStreamOptions
  state :: StreamStatus
  start_time :: real
  motion_ts :: real
  reconnect_count :: nat
  loop_thread :: "string option"
  loop :: "bool option"
  stop_event :: bool
  pc :: "RTCPeerConnection option"
  signaling :: "KvsSignalingClient option"
  video_track :: "nat option"
  audio_track :: "nat option"
  ffmpeg_process :: "Popen option"
  video_pipe :: "string option"
  audio_pipe :: "string option"
  files :: "string set"
  written :: "StreamStatus list"
  slept :: "nat list"
  threads :: "string list"

text \<open>\<^verbatim>\<open>__init__\<close> (lines 56-93), with a file system to live in.\<close>

definition WebRtcStream :: "string \<Rightarrow> string \<Rightarrow> WyzeStreamOptions \<Rightarrow> string set \<Rightarrow> stream" where
  "WebRtcStream name_uri nick opts fs =
     \<lparr> uri = name_uri, nickname = nick, options = opts,
       state = STOPPED, start_time = 0, motion_ts = 0, reconnect_count = 0,
       loop_thread = None, loop = None, stop_event = False,
       pc = None, signaling = None, video_track = None, audio_track = None,
       ffmpeg_process = None, video_pipe = None, audio_pipe = None,
       files = fs, written = [], slept = [], threads = [] \<rparr>"

text \<open>An assignment \<^verbatim>\<open>self.state = v\<close>.\<close>

definition set_state :: "StreamStatus \<Rightarrow> stream \<Rightarrow> stream" where
  "set_state v w = w\<lparr>state := v, written := written w @ [v]\<rparr>"

subsection \<open>Properties and the info snapshot\<close>

text \<open>
  The properties \<^verbatim>\<open>connected\<close>, \<^verbatim>\<open>enabled\<close> and \<^verbatim>\<open>motion\<close> (lines 97-110); \<open>now\<close> is the
  reading of \<^verbatim>\<open>time.time()\<close>.
\<close>

definition connected_prop :: "stream \<Rightarrow> bool" where
  "connected_prop w = (state w = CONNECTED)"

definition enabled_prop :: "stream \<Rightarrow> bool" where
  "enabled_prop w = (state w \<noteq> DISABLED)"

definition motion_prop :: "real \<Rightarrow> stream \<Rightarrow> bool" where
  "motion_prop now w = (motion_ts w \<noteq> 0 \<and> now - motion_ts w < 60)"

text \<open>Python's \<^verbatim>\<open>int(x)\<close> on a float rounds towards zero.\<close>

definition py_int :: "real \<Rightarrow> int" where
  "py_int x = (if 0 \<le> x then \<lfloor>x\<rfloor> else \<lceil>x\<rceil>)"

datatype pyval = PyStr string | PyInt int | PyBool bool

text \<open>
  \<^verbatim>\<open>get_info\<close> (lines 228-248). The dict literal is an association list in the order it
  is written; \<^verbatim>\<open>info.get(item) if item else info\<close> tests the truth value of \<open>item\<close>, which
  is false for \<^verbatim>\<open>None\<close> and for the empty string.
\<close>

definition info :: "real \<Rightarrow> stream \<Rightarrow> (string \<times> pyval) list" where
  "info now w =
     [ (''uri'', PyStr (uri w)),
       (''nickname'', PyStr (nickname w)),
       (''state'', PyInt (status_code (state w))),
       (''connected'', PyBool (connected_prop w)),
       (''enabled'', PyBool (enabled_prop w)),
       (''motion'', PyBool (motion_prop now w)),
       (''uptime'', PyInt (if start_time w \<noteq> 0 then py_int (now - start_time w) else 0)),
       (''reconnects'', PyInt (int (reconnect_count w))) ]"

datatype info_result = Snapshot "(string \<times> pyval) list" | Field "pyval option"

definition get_info :: "real \<Rightarrow> string option \<Rightarrow> stream \<Rightarrow> info_result" where
  "get_info now item w =
     (case item of
        None \<Rightarrow> Snapshot (info now w)
      | Some k \<Rightarrow> if k = [] then Snapshot (info now w) else Field (map_of (info now w) k))"

definition info_fields :: "string list" where
  "info_fields =
     [''uri'', ''nickname'', ''state'', ''connected'', ''enabled'', ''motion'', ''uptime'',
      ''reconnects'']"

subsection \<open>\<^verbatim>\<open>init\<close>, \<^verbatim>\<open>start\<close>, \<^verbatim>\<open>enable\<close>\<close>

definition init :: "stream \<Rightarrow> stream \<times> bool" where
  "init w = (set_state INITIALIZING w, True)"

text \<open>
  \<^verbatim>\<open>start\<close> (lines 124-145). Starting the thread is recorded in \<open>threads\<close>; what the thread
  then does is the connection context below.
\<close>

definition thread_name :: "stream \<Rightarrow> string" where
  "thread_name w = ''webrtc_'' @ uri w"

definition start :: "stream \<Rightarrow> stream \<times> bool" where
  "start w =
     (if state w \<notin> {STOPPED, INITIALIZING} then (w, False)
      else
        let w1 = set_state CONNECTING w;
            w2 = w1\<lparr>stop_event := False\<rparr>;
            w3 = w2\<lparr>loop_thread := Some (thread_name w2)\<rparr>;
            w4 = w3\<lparr>threads := threads w3 @ [thread_name w3]\<rparr>
        in (w4, True))"

definition enable :: "stream \<Rightarrow> stream \<times> bool" where
  "enable w = (if state w = DISABLED then (set_state STOPPED w, True) else (w, True))"

subsection \<open>Cleanup\<close>

text \<open>
  The file system under \<^verbatim>\<open>/tmp\<close> is the set of names present. \<^verbatim>\<open>os.mkfifo\<close> under
  \<^verbatim>\<open>suppress(FileExistsError)\<close> leaves an existing name alone; \<^verbatim>\<open>os.remove\<close> is only
  reached for a name that \<^verbatim>\<open>os.path.exists\<close> and takes it away.
\<close>

definition mkfifo :: "string \<Rightarrow> stream \<Rightarrow> stream" where
  "mkfifo path w = (if path \<in> files w then w else w\<lparr>files := insert path (files w)\<rparr>)"

definition remove_pipe :: "string option \<Rightarrow> stream \<Rightarrow> stream" where
  "remove_pipe pipe w =
     (case pipe of
        None \<Rightarrow> w
      | Some path \<Rightarrow>
          if path \<noteq> [] \<and> path \<in> files w then w\<lparr>files := files w - {path}\<rparr> else w)"

text \<open>
  \<^verbatim>\<open>_cleanup\<close> (lines 615-650). Closing the peer connection, closing the signaling client and
  terminating the subprocess leave the slot empty; the two pipe names are read before the
  loop over them starts.
\<close>

definition cleanup :: "stream \<Rightarrow> stream" where
  "cleanup w =
     (let w1 = (case pc w of None \<Rightarrow> w | Some p \<Rightarrow> w\<lparr>pc := None\<rparr>);
          w2 = (case signaling w1 of None \<Rightarrow> w1 | Some c \<Rightarrow> w1\<lparr>signaling := None\<rparr>);
          w3 = (case ffmpeg_process w2 of None \<Rightarrow> w2 | Some f \<Rightarrow> w2\<lparr>ffmpeg_process := None\<rparr>);
          w4 = remove_pipe (audio_pipe w3) (remove_pipe (video_pipe w3) w3);
          w5 = w4\<lparr>video_pipe := None, audio_pipe := None,
                   video_track := None, audio_track := None\<rparr>
      in if state w5 \<notin> {STOPPED, STOPPING} then set_state STOPPED w5 else w5)"

subsection \<open>\<^verbatim>\<open>stop\<close>, \<^verbatim>\<open>disable\<close> and failure handling\<close>

text \<open>
  \<^verbatim>\<open>stop\<close> (lines 147-172) sets the stop flag, asks the event loop to stop and joins the
  thread of the connection context for at most five seconds; it touches no resource
  itself. What the context does in the meantime is the only part of \<^verbatim>\<open>stop\<close> that is not
  its own code, so it is an argument:
  \<^item> \<open>Unwound\<close>: the coroutine saw the stop flag, left its wait loop (line 438) and ran its
    \<^verbatim>\<open>finally\<close> block, that is \<^verbatim>\<open>_cleanup\<close>; then \<^verbatim>\<open>_run_event_loop\<close> closed the loop;
  \<^item> \<open>Aborted\<close>: \<^verbatim>\<open>run_until_complete\<close> raised (the loop was stopped under the coroutine), so
    \<^verbatim>\<open>_run_event_loop\<close> took its \<^verbatim>\<open>except\<close> branch (line 294) and closed the loop;
  \<^item> \<open>Pending\<close>: the join returned with the context having done nothing: the five
    seconds ran out, the thread had ended earlier, or \<^verbatim>\<open>stop\<close> runs on the context's own
    thread, where \<^verbatim>\<open>join\<close> raises the \<^verbatim>\<open>RuntimeError\<close> that line 167 suppresses.
\<close>

datatype joined = Unwound | Aborted | Pending

fun join :: "joined \<Rightarrow> stream \<Rightarrow> stream" where
  "join Unwound w = (cleanup w)\<lparr>loop := None\<rparr>"
| "join Aborted w = (set_state STOPPED w)\<lparr>loop := None\<rparr>"
| "join Pending w = w"

definition stop :: "joined \<Rightarrow> stream \<Rightarrow> stream \<times> bool" where
  "stop j w =
     (if state w = STOPPED then (w, True)
      else
        let w1 = set_state STOPPING w;
            w2 = w1\<lparr>stop_event := True\<rparr>;
            w3 = (case loop_thread w2 of
                    None \<Rightarrow> w2
                  | Some t \<Rightarrow> (join j w2)\<lparr>loop_thread := None\<rparr>);
            w4 = set_state STOPPED w3
        in (w4, True))"

definition disable :: "joined \<Rightarrow> stream \<Rightarrow> stream \<times> bool" where
  "disable j w = (set_state DISABLED (fst (stop j w)), True)"

text \<open>The expression of line 221, for the counter value \<open>c\<close>.\<close>

definition backoff_delay :: "nat \<Rightarrow> nat" where
  "backoff_delay c = min (2 ^ c) 60"

text \<open>
  \<^verbatim>\<open>_handle_failure\<close> (lines 215-226). The counter starts at 0 and is only incremented or
  reset to 0, so it is a natural number.
\<close>

definition handle_failure :: "joined \<Rightarrow> stream \<Rightarrow> stream" where
  "handle_failure j w =
     (let w1 = fst (stop j w) in
      if reconnect (options w1) then
        let w2 = w1\<lparr>reconnect_count := reconnect_count w1 + 1\<rparr> in
        if reconnect_count w2 < 10 then
          let delay = backoff_delay (reconnect_count w2);
              w3 = w2\<lparr>slept := slept w2 @ [delay]\<rparr>
          in fst (start w3)
        else w2
      else w1)"

text \<open>\<^verbatim>\<open>health_check\<close> (lines 186-213); the branch for \<^verbatim>\<open>disconnected\<close> only logs.\<close>

definition health_check :: "joined \<Rightarrow> stream \<Rightarrow> stream \<times> StreamStatus" where
  "health_check j w =
     (if state w = CONNECTED then
        if (case ffmpeg_process w of None \<Rightarrow> False | Some f \<Rightarrow> returncode f \<noteq> None) then
          (let w' = handle_failure j w in (w', state w'))
        else
          (case pc w of
             None \<Rightarrow> (w, state w)
           | Some p \<Rightarrow>
               if iceConnectionState p \<in> {''failed'', ''closed''} then
                 (let w' = handle_failure j w in (w', state w'))
               else (w, state w))
      else (w, state w))"

subsection \<open>The ICE state handler\<close>

text \<open>
  \<^verbatim>\<open>on_ice_state_change\<close> (lines 378-395), registered on the peer connection; \<open>now\<close> is the
  reading of \<^verbatim>\<open>time.time()\<close>.
\<close>

definition on_ice_state_change :: "real \<Rightarrow> stream \<Rightarrow> stream" where
  "on_ice_state_change now w =
     (case pc w of
        None \<Rightarrow> w
      | Some p \<Rightarrow>
          if iceConnectionState p = ''connected'' then
            (set_state CONNECTED w)\<lparr>start_time := now, reconnect_count := 0\<rparr>
          else if iceConnectionState p = ''checking'' then w
          else if iceConnectionState p = ''disconnected'' then w
          else if iceConnectionState p \<in> {''failed'', ''closed''} then cleanup w
          else w)"

text \<open>The transport moves to ICE state \<open>st\<close> and emits the event the handler is bound to.\<close>

definition ice_state_becomes :: "string \<Rightarrow> real \<Rightarrow> stream \<Rightarrow> stream" where
  "ice_state_becomes st now w =
     on_ice_state_change now
       (w\<lparr>pc := map_option (\<lambda>p. p\<lparr>iceConnectionState := st\<rparr>) (pc w)\<rparr>)"

section \<open>The signaling client of \<^verbatim>\<open>kvs_signaling.py\<close>\<close>

text \<open>
  \<^verbatim>\<open>KvsSignalingClient.__init__\<close> (lines 29-55). Python's \<^verbatim>\<open>a in b\<close> on strings is
  \<^const>\<open>sublist\<close>; \<open>quote\<close> stands for \<^verbatim>\<open>urllib.parse.quote(_, safe='')\<close>, which is
  library code.
\<close>

definition KvsSignalingClient_init ::
    "(string \<Rightarrow> string) \<Rightarrow> string \<Rightarrow> string \<Rightarrow> string \<Rightarrow> KvsSignalingClient" where
  "KvsSignalingClient_init quote signaling_url cid token =
     \<lparr> url =
         (if sublist ''X-Amz-'' signaling_url then signaling_url
          else
            let sep = (if sublist ''?'' signaling_url then ''&'' else ''?'')
            in signaling_url @ sep @ ''ClientId='' @ quote cid @ ''&signalToken='' @ quote token),
       client_id = cid, ws = False, on_answer = None, on_ice_candidate = None \<rparr>"

subsection \<open>Inbound messages\<close>

text \<open>
  The decoders are library code (\<^verbatim>\<open>base64.b64decode\<close>, \<^verbatim>\<open>bytes.decode('utf-8')\<close>,
  \<^verbatim>\<open>json.loads\<close>): each either returns a value or raises.
\<close>

record codec =
  b64decode :: "string \<Rightarrow> string option"
  utf8_decode :: "string \<Rightarrow> string option"
  json_loads :: "string \<Rightarrow> json option"

text \<open>Python's truth value of a decoded JSON value, and \<^verbatim>\<open>dict.get\<close> with its default.\<close>

fun truthy :: "json \<Rightarrow> bool" where
  "truthy JNull = False"
| "truthy (JBool b) = b"
| "truthy (JNum x) = (x \<noteq> 0)"
| "truthy (JStr s) = (s \<noteq> [])"
| "truthy (JArr xs) = (xs \<noteq> [])"
| "truthy (JObj kv) = (kv \<noteq> [])"

definition dict_get :: "(string \<times> json) list \<Rightarrow> string \<Rightarrow> json" where
  "dict_get d k = (case map_of d k of None \<Rightarrow> JNull | Some v \<Rightarrow> v)"

text \<open>
  \<^verbatim>\<open>base64.b64decode(encoded_payload).decode('utf-8')\<close> followed by \<^verbatim>\<open>json.loads\<close>
  (lines 163-164 and 179-180): the decoded text and the parsed value, or the exception.
  A payload that is not a string makes \<^verbatim>\<open>b64decode\<close> raise \<^verbatim>\<open>TypeError\<close>.
\<close>

definition decode_payload :: "codec \<Rightarrow> json \<Rightarrow> exn + (string \<times> json)" where
  "decode_payload cd encoded =
     (case encoded of
        JStr s \<Rightarrow>
          (case b64decode cd s of
             None \<Rightarrow> Inl BinasciiError
           | Some bytes \<Rightarrow>
               (case utf8_decode cd bytes of
                  None \<Rightarrow> Inl UnicodeDecodeError
                | Some decoded \<Rightarrow>
                    (case json_loads cd decoded of
                       None \<Rightarrow> Inl JSONDecodeError
                     | Some payload \<Rightarrow> Inr (decoded, payload))))
      | _ \<Rightarrow> Inl TypeError)"

text \<open>
  A handler result is the list of callback invocations made, in order, and the exception
  that leaves the handler, if any. \<^verbatim>\<open>except Exception\<close> lets only a \<^verbatim>\<open>BaseException\<close> pass.
\<close>

datatype cb_call = AnswerCall json | CandidateCall json

definition except_Exception :: "exn option \<Rightarrow> exn option" where
  "except_Exception r =
     (case r of None \<Rightarrow> None | Some e \<Rightarrow> if is_Exception e then None else Some e)"

text \<open>\<^verbatim>\<open>_handle_message\<close> (lines 146-190); \<^verbatim>\<open>data.get\<close> on a value that is no dict raises.\<close>

definition handle_message ::
    "codec \<Rightarrow> KvsSignalingClient \<Rightarrow> json \<Rightarrow> cb_call list \<times> exn option" where
  "handle_message cd c data =
     (case data of
        JObj d \<Rightarrow>
          (let msg_type = dict_get d ''messageType'' in
           if msg_type = JStr ''SDP_ANSWER'' then
             (case on_answer c of
                None \<Rightarrow> ([], None)
              | Some cb \<Rightarrow>
                  (let encoded_payload = dict_get d ''messagePayload'' in
                   if truthy encoded_payload then
                     (case decode_payload cd encoded_payload of
                        Inl e \<Rightarrow> ([], except_Exception (Some e))
                      | Inr (decoded, payload) \<Rightarrow>
                          (let sdp = (case payload of JObj p \<Rightarrow> dict_get p ''sdp''
                                      | _ \<Rightarrow> JStr decoded)
                           in ([AnswerCall sdp], except_Exception (cb sdp))))
                   else ([], None)))
           else if msg_type = JStr ''ICE_CANDIDATE'' then
             (case on_ice_candidate c of
                None \<Rightarrow> ([], None)
              | Some cb \<Rightarrow>
                  (let encoded_payload = dict_get d ''messagePayload'' in
                   if truthy encoded_payload then
                     (case decode_payload cd encoded_payload of
                        Inl e \<Rightarrow> ([], except_Exception (Some e))
                      | Inr (decoded, candidate) \<Rightarrow>
                          ([CandidateCall candidate], except_Exception (cb candidate)))
                   else ([], None)))
           else ([], None))
      | _ \<Rightarrow> ([], Some AttributeError))"

text \<open>
  One turn of \<^verbatim>\<open>_receive_loop\<close> (lines 118-140) for a text or a binary frame. The characters
  \<^verbatim>\<open>str.strip\<close> removes are those \<^verbatim>\<open>str.isspace\<close> accepts; below 256 these are the codes
  9 to 13, 28 to 32, 133 and 160. Both \<^verbatim>\<open>except\<close> clauses of the turn only log.
\<close>

datatype frame = TextFrame string | BinaryFrame string

definition py_isspace :: "char \<Rightarrow> bool" where
  "py_isspace ch = (of_char ch \<in> {9, 10, 11, 12, 13, 28, 29, 30, 31, 32, 133, 160 :: nat})"

definition frame_text :: "codec \<Rightarrow> frame \<Rightarrow> exn + string" where
  "frame_text cd fr =
     (case fr of
        TextFrame s \<Rightarrow> Inr s
      | BinaryFrame b \<Rightarrow>
          (case utf8_decode cd b of None \<Rightarrow> Inl UnicodeDecodeError | Some s \<Rightarrow> Inr s))"

definition receive_one ::
    "codec \<Rightarrow> KvsSignalingClient \<Rightarrow> frame \<Rightarrow> cb_call list \<times> exn option" where
  "receive_one cd c fr =
     (case frame_text cd fr of
        Inl e \<Rightarrow> ([], except_Exception (Some e))
      | Inr message \<Rightarrow>
          if message = [] \<or> list_all py_isspace message then ([], None)
          else
            (case json_loads cd message of
               None \<Rightarrow> ([], except_Exception (Some JSONDecodeError))
             | Some data \<Rightarrow>
                 (case handle_message cd c data of
                    (calls, r) \<Rightarrow> (calls, except_Exception r))))"

text \<open>
  The loop over the frames the socket delivers. An exception that leaves a turn ends the
  loop; the outer \<^verbatim>\<open>except Exception\<close> (line 143) catches it unless it is a
  \<^verbatim>\<open>BaseException\<close>.
\<close>

fun receive_loop ::
    "codec \<Rightarrow> KvsSignalingClient \<Rightarrow> frame list \<Rightarrow> cb_call list \<times> exn option" where
  "receive_loop cd c [] = ([], None)"
| "receive_loop cd c (fr # frs) =
     (case receive_one cd c fr of
        (calls, Some e) \<Rightarrow> (calls, except_Exception (Some e))
      | (calls, None) \<Rightarrow>
          (case receive_loop cd c frs of (later, r) \<Rightarrow> (calls @ later, r)))"

text \<open>
  Malformed, in the words of the specification: the message fails to decode at some
  layer. The payload is missing or not a string, is refused by the base64 decoder, or
  does not decode to text and then to JSON; the message itself is not text, or is
  refused by the JSON decoder.
\<close>

definition payload_malformed :: "codec \<Rightarrow> json \<Rightarrow> bool" where
  "payload_malformed cd p =
     (case p of
        JStr s \<Rightarrow>
          (case b64decode cd s of
             None \<Rightarrow> True
           | Some bytes \<Rightarrow>
               (case utf8_decode cd bytes of
                  None \<Rightarrow> True
                | Some t \<Rightarrow> json_loads cd t = None))
      | _ \<Rightarrow> True)"

definition malformed :: "codec \<Rightarrow> frame \<Rightarrow> bool" where
  "malformed cd fr =
     (case fr of
        TextFrame s \<Rightarrow>
          (case json_loads cd s of
             None \<Rightarrow> True
           | Some (JObj d) \<Rightarrow> payload_malformed cd (dict_get d ''messagePayload'')
           | Some _ \<Rightarrow> False)
      | BinaryFrame b \<Rightarrow>
          (case utf8_decode cd b of
             None \<Rightarrow> True
           | Some s \<Rightarrow>
               (case json_loads cd s of
                  None \<Rightarrow> True
                | Some (JObj d) \<Rightarrow> payload_malformed cd (dict_get d ''messagePayload'')
                | Some _ \<Rightarrow> False)))"

subsection \<open>The decoder the code calls\<close>

text \<open>
  \<^verbatim>\<open>base64.b64decode\<close> is called without \<^verbatim>\<open>validate=True\<close> (lines 163 and 179). In that
  mode the standard library's decoder (\<^verbatim>\<open>binascii.a2b_base64\<close>) skips every character
  outside the alphabet, reads the others four at a time, stops at a complete run of
  padding and raises only when the input ends inside a group of four; a string with a
  character above 127 is refused before. \<open>quad_pos\<close>, \<open>pads\<close> and \<open>leftchar\<close> are the
  decoder's three variables.
\<close>

definition b64_value :: "char \<Rightarrow> nat option" where
  "b64_value ch =
     (let n = (of_char ch :: nat) in
      if 65 \<le> n \<and> n \<le> 90 then Some (n - 65)
      else if 97 \<le> n \<and> n \<le> 122 then Some (n - 71)
      else if 48 \<le> n \<and> n \<le> 57 then Some (n + 4)
      else if n = 43 then Some 62
      else if n = 47 then Some 63
      else None)"

fun a2b_base64 :: "nat \<Rightarrow> nat \<Rightarrow> nat \<Rightarrow> string \<Rightarrow> string option" where
  "a2b_base64 quad_pos pads leftchar [] = (if quad_pos \<noteq> 0 then None else Some [])"
| "a2b_base64 quad_pos pads leftchar (ch # rest) =
     (if ch = CHR ''='' then
        (if 2 \<le> quad_pos \<and> 4 \<le> quad_pos + (pads + 1) then Some []
         else a2b_base64 quad_pos (if 2 \<le> quad_pos then pads + 1 else pads) leftchar rest)
      else
        (case b64_value ch of
           None \<Rightarrow> a2b_base64 quad_pos pads leftchar rest
         | Some v \<Rightarrow>
             if quad_pos = 0 then a2b_base64 1 0 v rest
             else if quad_pos = 1 then
               map_option ((#) (char_of (leftchar * 4 + v div 16))) (a2b_base64 2 0 (v mod 16) rest)
             else if quad_pos = 2 then
               map_option ((#) (char_of (leftchar * 16 + v div 4))) (a2b_base64 3 0 (v mod 4) rest)
             else
               map_option ((#) (char_of (leftchar * 64 + v))) (a2b_base64 0 0 0 rest)))"

definition py_b64decode :: "string \<Rightarrow> string option" where
  "py_b64decode s =
     (if list_all (\<lambda>ch. (of_char ch :: nat) < 128) s then a2b_base64 0 0 0 s else None)"

text \<open>
  Base64 as the standard has it: characters of the alphabet only, then at most two
  padding characters, a multiple of four in all.
\<close>

definition valid_base64 :: "string \<Rightarrow> bool" where
  "valid_base64 s =
     (length s mod 4 = 0
      \<and> list_all (\<lambda>ch. b64_value ch \<noteq> None) (takeWhile (\<lambda>ch. ch \<noteq> CHR ''='') s)
      \<and> dropWhile (\<lambda>ch. ch \<noteq> CHR ''='') s \<in> {[], ''='', ''==''})"

section \<open>The connection context\<close>

text \<open>
  What \<^verbatim>\<open>api.get_kvs_signal\<close> returns, as far as \<^verbatim>\<open>_connect_webrtc\<close> reads it (the ICE server
  list only configures the transport, which is not modelled), and what the outside world
  does to one connection attempt: whether the socket opens (\<^verbatim>\<open>websockets.connect\<close>) and
  whether the transport calls of steps 3 to 7 go through.
\<close>

record kvs_signal =
  result :: "string option"
  signalingUrl :: "string option"
  ClientId :: "string option"
  signalToken :: "string option"

record attempt =
  signal_data :: kvs_signal
  quote :: "string \<Rightarrow> string"
  socket_opens :: bool
  offer_sent :: bool
  answer_handler :: "json \<Rightarrow> exn option"
  candidate_handler :: "json \<Rightarrow> exn option"

text \<open>
  The \<^verbatim>\<open>try\<close> body of \<^verbatim>\<open>_connect_webrtc\<close> up to the wait loop (lines 306-435): the stream
  at the point where the body raised or reached the loop, and the exception if any. A
  missing key of the credential record raises \<^verbatim>\<open>KeyError\<close>; a transport call that fails
  is placed after step 6, where signaling client, peer connection and callbacks are all
  set (an earlier failure leaves fewer slots filled, and the cleanup that follows empties
  them all the same).
\<close>

definition connect_webrtc_try :: "attempt \<Rightarrow> stream \<Rightarrow> stream \<times> exn option" where
  "connect_webrtc_try a w =
     (if result (signal_data a) \<noteq> Some ''ok'' then (w, Some OtherException)
      else
        (case signalingUrl (signal_data a) of None \<Rightarrow> (w, Some KeyError) | Some u \<Rightarrow>
        (case ClientId (signal_data a) of None \<Rightarrow> (w, Some KeyError) | Some c \<Rightarrow>
        (case signalToken (signal_data a) of None \<Rightarrow> (w, Some KeyError) | Some t \<Rightarrow>
          (let w1 = w\<lparr>signaling := Some (KvsSignalingClient_init (quote a) u c t)\<rparr> in
           if \<not> socket_opens a then (w1, Some OtherException)
           else
             (let w2 = w1\<lparr>signaling := map_option (\<lambda>k. k\<lparr>ws := True\<rparr>) (signaling w1)\<rparr>;
                  w3 = w2\<lparr>pc := Some \<lparr>iceConnectionState = ''new''\<rparr>\<rparr>;
                  w4 = w3\<lparr>signaling :=
                          map_option
                            (\<lambda>k. k\<lparr>on_answer := Some (answer_handler a),
                                   on_ice_candidate := Some (candidate_handler a)\<rparr>)
                            (signaling w3)\<rparr>
              in (if \<not> offer_sent a then (w4, Some OtherException) else (w4, None))))))))"

text \<open>
  A connection attempt has either run to its end or sits in the wait loop of line 438.
  \<^verbatim>\<open>_connect_webrtc\<close> catches an \<^verbatim>\<open>Exception\<close> by setting Stopped (line 443) and always runs
  \<^verbatim>\<open>_cleanup\<close> in its \<^verbatim>\<open>finally\<close> block; \<^verbatim>\<open>_run_event_loop\<close> (lines 281-298) creates the
  loop before and drops it after.
\<close>

datatype attempt_state = Finished stream | Waiting stream

fun world_of :: "attempt_state \<Rightarrow> stream" where
  "world_of (Finished w) = w"
| "world_of (Waiting w) = w"

fun finished :: "attempt_state \<Rightarrow> bool" where
  "finished (Finished w) = True"
| "finished (Waiting w) = False"

definition connect_webrtc_begin :: "attempt \<Rightarrow> stream \<Rightarrow> attempt_state" where
  "connect_webrtc_begin a w =
     (case connect_webrtc_try a w of
        (w1, Some e) \<Rightarrow>
          Finished (cleanup (if is_Exception e then set_state STOPPED w1 else w1))
      | (w1, None) \<Rightarrow> Waiting w1)"

definition run_event_loop_begin :: "attempt \<Rightarrow> stream \<Rightarrow> attempt_state" where
  "run_event_loop_begin a w =
     (case connect_webrtc_begin a (w\<lparr>loop := Some True\<rparr>) of
        Finished w1 \<Rightarrow> Finished (w1\<lparr>loop := None\<rparr>)
      | Waiting w1 \<Rightarrow> Waiting w1)"

subsection \<open>Tracks and the media pipes\<close>

text \<open>
  \<^verbatim>\<open>on_track\<close> (lines 354-366): \<open>started\<close> is the closure variable \<^verbatim>\<open>_media_started\<close>; the
  second component of the result is its new value, and the media task is created when
  it turns true.
\<close>

definition on_track :: "string \<Rightarrow> nat \<Rightarrow> bool \<Rightarrow> stream \<Rightarrow> stream \<times> bool" where
  "on_track kind track started w =
     (let w1 = (if kind = ''video'' then w\<lparr>video_track := Some track\<rparr>
                else if kind = ''audio'' \<and> audio (options w) then w\<lparr>audio_track := Some track\<rparr>
                else w)
      in if \<not> started \<and> video_track w1 \<noteq> None
              \<and> (\<not> audio (options w1) \<or> audio_track w1 \<noteq> None)
         then (w1, True) else (w1, started))"

definition video_pipe_path :: "stream \<Rightarrow> string" where
  "video_pipe_path w = ''/tmp/'' @ uri w @ ''_video.pipe''"

definition audio_pipe_path :: "stream \<Rightarrow> string" where
  "audio_pipe_path w = ''/tmp/'' @ uri w @ ''_audio.pipe''"

text \<open>
  \<^verbatim>\<open>_handle_media_tracks\<close> (lines 447-478) up to the point where the two pumps run. The
  launch of the subprocess (\<^verbatim>\<open>Popen\<close>) or a pump may raise; the \<^verbatim>\<open>except\<close> branch calls
  \<^verbatim>\<open>_handle_failure\<close> on the context's own thread, so the join inside \<^verbatim>\<open>stop\<close> is
  \<open>Pending\<close>.
\<close>

datatype media_fault = NoMediaFault | LaunchFails | PumpFails

definition handle_media_tracks :: "media_fault \<Rightarrow> stream \<Rightarrow> stream" where
  "handle_media_tracks fault w =
     (let w1 = w\<lparr>video_pipe := Some (video_pipe_path w)\<rparr>;
          w2 = (if audio (options w1) \<and> audio_track w1 \<noteq> None
                then w1\<lparr>audio_pipe := Some (audio_pipe_path w1)\<rparr> else w1);
          w3 = mkfifo (video_pipe_path w2) w2;
          w4 = (case audio_pipe w3 of
                  None \<Rightarrow> w3
                | Some p \<Rightarrow> if p \<noteq> [] then mkfifo p w3 else w3)
      in if fault = LaunchFails then handle_failure Pending w4
         else
           let w5 = w4\<lparr>ffmpeg_process :=
                         Some \<lparr>has_audio = (case audio_pipe w4 of None \<Rightarrow> False | Some p \<Rightarrow> p \<noteq> []),
                               returncode = None\<rparr>\<rparr>
           in if fault = PumpFails then handle_failure Pending w5 else w5)"

section \<open>Sequences of calls and the transition table\<close>

text \<open>The public calls; a call that stops carries what the join inside it finds.\<close>

datatype call = Init | Start | Stop joined | Enable | Disable joined | HealthCheck joined

fun run_call :: "call \<Rightarrow> stream \<Rightarrow> stream" where
  "run_call Init w = fst (init w)"
| "run_call Start w = fst (start w)"
| "run_call (Stop j) w = fst (stop j w)"
| "run_call Enable w = fst (enable w)"
| "run_call (Disable j) w = fst (disable j w)"
| "run_call (HealthCheck j) w = fst (health_check j w)"

definition run_calls :: "call list \<Rightarrow> stream \<Rightarrow> stream" where
  "run_calls cs w = fold run_call cs w"

text \<open>
  The transitions of section 4.2 of the specification, in its words: \<^verbatim>\<open>init\<close> from any
  state to Initializing; \<^verbatim>\<open>start\<close> from Stopped or Initializing to Connecting; the
  transport's \<^verbatim>\<open>connected\<close> from Connecting to Connected; \<^verbatim>\<open>stop\<close> from any state but
  Stopped to Stopping and from there to Stopped; \<^verbatim>\<open>disable\<close>, after its stop, from
  Stopped to Disabled; \<^verbatim>\<open>enable\<close> from Disabled to Stopped; Offline from anywhere.
\<close>

definition spec_transition :: "StreamStatus \<Rightarrow> StreamStatus \<Rightarrow> bool" where
  "spec_transition a b =
     (b = INITIALIZING
      \<or> (a \<in> {STOPPED, INITIALIZING} \<and> b = CONNECTING)
      \<or> (a = CONNECTING \<and> b = CONNECTED)
      \<or> (a \<noteq> STOPPED \<and> b = STOPPING)
      \<or> (a = STOPPING \<and> b = STOPPED)
      \<or> (a = STOPPED \<and> b = DISABLED)
      \<or> (a = DISABLED \<and> b = STOPPED)
      \<or> b = OFFLINE)"

text \<open>
  A history of states follows the table when every change in it is a transition of the
  table; it skips Stopping when Stopped comes directly after Connected.
\<close>

fun follows_table :: "StreamStatus list \<Rightarrow> bool" where
  "follows_table (a # b # rest) = ((a = b \<or> spec_transition a b) \<and> follows_table (b # rest))"
| "follows_table _ = True"

fun skips_stopping :: "StreamStatus list \<Rightarrow> bool" where
  "skips_stopping (a # b # rest) = ((a = CONNECTED \<and> b = STOPPED) \<or> skips_stopping (b # rest))"
| "skips_stopping _ = False"

text \<open>
  What the connection context does by itself, between the calls or after a join that did
  not wait for it: an attempt begins (and may fail at once), the transport reports an ICE
  state, the media task runs, the coroutine unwinds through its \<^verbatim>\<open>finally\<close> block, or the
  loop stops under the coroutine and \<^verbatim>\<open>_run_event_loop\<close> takes its \<^verbatim>\<open>except\<close> branch
  (line 294). The last two are what \<^const>\<open>join\<close> lets happen inside \<^verbatim>\<open>stop\<close>; here they may
  come at any later time.
\<close>

datatype ctx_event =
  Begins attempt | IceState string real | MediaTask media_fault | Unwinds | LoopAborts

fun run_ctx :: "ctx_event \<Rightarrow> stream \<Rightarrow> stream" where
  "run_ctx (Begins a) w = world_of (run_event_loop_begin a w)"
| "run_ctx (IceState st now) w = ice_state_becomes st now w"
| "run_ctx (MediaTask fault) w = handle_media_tracks fault w"
| "run_ctx Unwinds w = join Unwound w"
| "run_ctx LoopAborts w = join Aborted w"

datatype event = Call call | Ctx ctx_event

fun run_event :: "event \<Rightarrow> stream \<Rightarrow> stream" where
  "run_event (Call c) w = run_call c w"
| "run_event (Ctx x) w = run_ctx x w"

definition run_events :: "event list \<Rightarrow> stream \<Rightarrow> stream" where
  "run_events es w = fold run_event es w"

fun is_call :: "event \<Rightarrow> bool" where
  "is_call (Call c) = True"
| "is_call (Ctx x) = False"

text \<open>The states an event assigns, in order.\<close>

definition writes_of :: "event \<Rightarrow> stream \<Rightarrow> StreamStatus list" where
  "writes_of e w = drop (length (written w)) (written (run_event e w))"

text \<open>
  Along a sequence of events, every call steps along the table: the states it assigns,
  read after the state it finds, follow the table and do not skip Stopping. Nothing is
  asked of the events of the context.
\<close>

fun calls_step_along :: "event list \<Rightarrow> stream \<Rightarrow> bool" where
  "calls_step_along [] w = True"
| "calls_step_along (Call c # es) w =
     (follows_table (state w # writes_of (Call c) w)
      \<and> \<not> skips_stopping (state w # writes_of (Call c) w)
      \<and> calls_step_along es (run_event (Call c) w))"
| "calls_step_along (Ctx x # es) w = calls_step_along es (run_event (Ctx x) w)"

text \<open>
  What a stream holds: the names of its pipes, and whether all of its resource slots are
  empty and none of its pipe names is a file.
\<close>

definition pipe_names :: "stream \<Rightarrow> string set" where
  "pipe_names w = {p \<in> set_option (video_pipe w) \<union> set_option (audio_pipe w). p \<noteq> []}"

definition released :: "stream \<Rightarrow> bool" where
  "released w =
     (pc w = None \<and> signaling w = None \<and> ffmpeg_process w = None
      \<and> video_pipe w = None \<and> audio_pipe w = None
      \<and> video_track w = None \<and> audio_track w = None)"

text \<open>
  An operation \<open>f\<close> steps along the table from \<open>w\<close> when the states it assigns, read after
  the state of \<open>w\<close>, follow the table and end in the state it leaves.
\<close>

definition steps :: "(stream \<Rightarrow> stream) \<Rightarrow> stream \<Rightarrow> bool" where
  "steps f w =
     (\<exists>ws. written (f w) = written w @ ws \<and> follows_table (state w # ws)
           \<and> state (f w) = last (state w # ws))"

section \<open>Concrete runs\<close>

text \<open>
  A camera with audio and reconnection switched on, on an empty \<^verbatim>\<open>/tmp\<close>; a connection
  attempt in which everything goes through, and one whose credential lookup is refused.
\<close>

definition camera :: stream where
  "camera = WebRtcStream ''cam'' ''Cam'' \<lparr>audio = True, reconnect = True\<rparr> {}"

definition good_attempt :: attempt where
  "good_attempt =
     \<lparr> signal_data = \<lparr> result = Some ''ok'', signalingUrl = Some ''wss://kvs/?X-Amz-Signature=ab'',
                       ClientId = Some ''phone'', signalToken = Some ''tok'' \<rparr>,
       quote = (\<lambda>s. s), socket_opens = True, offer_sent = True,
       answer_handler = (\<lambda>v. None), candidate_handler = (\<lambda>v. None) \<rparr>"

definition refused_attempt :: attempt where
  "refused_attempt = good_attempt\<lparr>signal_data := (signal_data good_attempt)\<lparr>result := Some ''error''\<rparr>\<rparr>"

text \<open>
  The camera is started, the attempt reaches its wait loop, the video and the audio track
  arrive (the second arrival creates the media task).
\<close>

definition tracks_arrived :: stream where
  "tracks_arrived =
     fst (on_track ''audio'' 2 False
       (fst (on_track ''video'' 1 False
         (world_of (run_event_loop_begin good_attempt (fst (start camera)))))))"

text \<open>
  From there the media task sets up pipes and subprocess and the transport reports
  \<^verbatim>\<open>connected\<close> at time 100: a connected episode.
\<close>

definition connected_episode :: stream where
  "connected_episode =
     ice_state_becomes ''connected'' 100 (handle_media_tracks NoMediaFault tracks_arrived)"

text \<open>
  JSON texts carry double quotes: \<open>dq s\<close> is \<open>s\<close> between two of them, \<open>envelope t p\<close> is
  the text of a message of type \<open>t\<close> with payload \<open>p\<close>, \<open>sdp_text\<close> is \<^verbatim>\<open>{"sdp":"v=0"}\<close> and
  \<open>candidate_without_payload\<close> is \<^verbatim>\<open>{"messageType":"ICE_CANDIDATE"}\<close>.
\<close>

definition dq :: "string \<Rightarrow> string" where
  "dq s = CHR 0x22 # s @ [CHR 0x22]"

definition envelope :: "string \<Rightarrow> string \<Rightarrow> string" where
  "envelope t p =
     ''{'' @ dq ''messageType'' @ '':'' @ dq t @ '','' @ dq ''messagePayload'' @ '':'' @ dq p @ ''}''"

definition sdp_text :: string where
  "sdp_text = ''{'' @ dq ''sdp'' @ '':'' @ dq ''v=0'' @ ''}''"

definition candidate_without_payload :: string where
  "candidate_without_payload = ''{'' @ dq ''messageType'' @ '':'' @ dq ''ICE_CANDIDATE'' @ ''}''"

text \<open>
  The decoders for the runs below: the base64 decoder above; UTF-8 decoding of ASCII
  bytes, which leaves them as they are (other byte strings are not decoded here); and
  \<^verbatim>\<open>json.loads\<close> on the texts the runs use, each with the value the library returns for it
  (any other text, such as the empty one, counts as not JSON here). The four payloads:
  the base64 of \<^verbatim>\<open>{"sdp":"v=0"}\<close>; the same with a stray \<^verbatim>\<open>!\<close> in front; the same without its
  padding; and \<^verbatim>\<open>!!\<close>.
\<close>

definition py_codec :: codec where
  "py_codec =
     \<lparr> b64decode = py_b64decode,
       utf8_decode = (\<lambda>b. if list_all (\<lambda>ch. (of_char ch :: nat) < 128) b then Some b else None),
       json_loads = (\<lambda>s.
          if s = sdp_text then Some (JObj [(''sdp'', JStr ''v=0'')])
          else if s = envelope ''SDP_ANSWER'' ''eyJzZHAiOiJ2PTAifQ=='' then
            Some (JObj [(''messageType'', JStr ''SDP_ANSWER''),
                        (''messagePayload'', JStr ''eyJzZHAiOiJ2PTAifQ=='')])
          else if s = envelope ''SDP_ANSWER'' ''!eyJzZHAiOiJ2PTAifQ=='' then
            Some (JObj [(''messageType'', JStr ''SDP_ANSWER''),
                        (''messagePayload'', JStr ''!eyJzZHAiOiJ2PTAifQ=='')])
          else if s = envelope ''SDP_ANSWER'' ''eyJzZHAiOiJ2PTAifQ'' then
            Some (JObj [(''messageType'', JStr ''SDP_ANSWER''),
                        (''messagePayload'', JStr ''eyJzZHAiOiJ2PTAifQ'')])
          else if s = envelope ''SDP_ANSWER'' ''!!'' then
            Some (JObj [(''messageType'', JStr ''SDP_ANSWER''), (''messagePayload'', JStr ''!!'')])
          else if s = candidate_without_payload then
            Some (JObj [(''messageType'', JStr ''ICE_CANDIDATE'')])
          else None) \<rparr>"

definition listening_client :: KvsSignalingClient where
  "listening_client =
     (KvsSignalingClient_init (\<lambda>s. s) ''wss://kvs/?X-Amz-Signature=ab'' ''phone'' ''tok'')
       \<lparr>ws := True, on_answer := Some (\<lambda>v. None), on_ice_candidate := Some (\<lambda>v. None)\<rparr>"

section \<open>Theorems\<close>

lemma state_set_state [simp]: "state (set_state v w) = v"
  by (simp add: set_state_def)

text \<open>
  C5. \<^verbatim>\<open>start()\<close> returns true exactly when the state is Stopped or Initializing; then the
  state becomes Connecting, the stop flag is cleared and the connection context's thread
  is started. From every other state it returns false and changes nothing.
\<close>

theorem start_iff_stopped_or_initializing:
  "(snd (start w) \<longleftrightarrow> state w \<in> {STOPPED, INITIALIZING})
   \<and> (state w \<in> {STOPPED, INITIALIZING} \<longrightarrow>
        state (fst (start w)) = CONNECTING
        \<and> \<not> stop_event (fst (start w))
        \<and> loop_thread (fst (start w)) = Some (thread_name w)
        \<and> threads (fst (start w)) = threads w @ [thread_name w]
        \<and> written (fst (start w)) = written w @ [CONNECTING])
   \<and> (state w \<notin> {STOPPED, INITIALIZING} \<longrightarrow> start w = (w, False))"
  by (simp add: start_def Let_def set_state_def thread_name_def)

theorem start_iff_stopped_or_initializing_witness:
  "snd (start (WebRtcStream ''cam'' ''Cam'' \<lparr>audio = True, reconnect = True\<rparr> {}))
   \<and> state (fst (start (WebRtcStream ''cam'' ''Cam'' \<lparr>audio = True, reconnect = True\<rparr> {}))) = CONNECTING
   \<and> threads (fst (start (WebRtcStream ''cam'' ''Cam'' \<lparr>audio = True, reconnect = True\<rparr> {}))) = [''webrtc_cam'']
   \<and> start (fst (start (WebRtcStream ''cam'' ''Cam'' \<lparr>audio = True, reconnect = True\<rparr> {})))
       = (fst (start (WebRtcStream ''cam'' ''Cam'' \<lparr>audio = True, reconnect = True\<rparr> {})), False)"
  using start_iff_stopped_or_initializing
          [of "WebRtcStream ''cam'' ''Cam'' \<lparr>audio = True, reconnect = True\<rparr> {}"]
        start_iff_stopped_or_initializing
          [of "fst (start (WebRtcStream ''cam'' ''Cam'' \<lparr>audio = True, reconnect = True\<rparr> {}))"]
  by (simp add: WebRtcStream_def thread_name_def)


subsection \<open>Facts about cleanup and stop\<close>

lemma remove_pipe_eq:
  "remove_pipe p w = w\<lparr>files := files w - {q \<in> set_option p. q \<noteq> []}\<rparr>"
proof (cases "\<exists>path. p = Some path \<and> path \<noteq> [] \<and> path \<in> files w")
  case True
  then obtain path where P: "p = Some path" "path \<noteq> []" "path \<in> files w" by blast
  have e: "{q \<in> set_option p. q \<noteq> []} = {path}" using P by auto
  have "remove_pipe p w = w\<lparr>files := files w - {path}\<rparr>" using P by (simp add: remove_pipe_def)
  then show ?thesis unfolding e .
next
  case False
  have r: "remove_pipe p w = w" using False by (cases p) (auto simp: remove_pipe_def)
  have e: "files w - {q \<in> set_option p. q \<noteq> []} = files w" using False by (cases p) auto
  show ?thesis unfolding e r by simp
qed

lemma mkfifo_eq: "mkfifo path w = w\<lparr>files := insert path (files w)\<rparr>"
  by (simp add: mkfifo_def insert_absorb)

lemma cleanup_state:
  "state (cleanup w) = (if state w \<in> {STOPPED, STOPPING} then state w else STOPPED)"
  by (simp add: cleanup_def Let_def set_state_def remove_pipe_eq split: option.splits)

lemma cleanup_written:
  "written (cleanup w) = written w @ (if state w \<in> {STOPPED, STOPPING} then [] else [STOPPED])"
  by (simp add: cleanup_def Let_def set_state_def remove_pipe_eq split: option.splits)

lemma cleanup_keeps [simp]:
  "uri (cleanup w) = uri w" "options (cleanup w) = options w"
  "reconnect_count (cleanup w) = reconnect_count w"
  "slept (cleanup w) = slept w" "threads (cleanup w) = threads w"
  "loop_thread (cleanup w) = loop_thread w" "stop_event (cleanup w) = stop_event w"
  by (simp_all add: cleanup_def Let_def set_state_def remove_pipe_eq split: option.splits)

lemma cleanup_released: "released (cleanup w)"
  by (simp add: cleanup_def released_def Let_def set_state_def remove_pipe_eq split: option.splits)

lemma cleanup_files: "files (cleanup w) = files w - pipe_names w"
  by (auto simp: cleanup_def pipe_names_def Let_def set_state_def remove_pipe_eq split: option.splits)

lemma stop_result: "snd (stop j w)" "state (fst (stop j w)) = STOPPED"
  by (simp_all add: stop_def Let_def set_state_def split: option.splits)

lemma join_keeps [simp]:
  "uri (join j w) = uri w" "options (join j w) = options w"
  "reconnect_count (join j w) = reconnect_count w"
  "slept (join j w) = slept w" "threads (join j w) = threads w"
  by (cases j; simp add: set_state_def)+

lemma stop_keeps [simp]:
  "uri (fst (stop j w)) = uri w" "options (fst (stop j w)) = options w"
  "reconnect_count (fst (stop j w)) = reconnect_count w"
  "slept (fst (stop j w)) = slept w" "threads (fst (stop j w)) = threads w"
  by (simp_all add: stop_def Let_def set_state_def split: option.splits)

lemma stop_written:
  "written (fst (stop j w)) = written w @
     (if state w = STOPPED then []
      else STOPPING # (if loop_thread w \<noteq> None \<and> j = Aborted then [STOPPED] else []) @ [STOPPED])"
  by (cases j) (auto simp add: stop_def Let_def set_state_def cleanup_written split: option.splits)

lemma stop_stopped: "state w = STOPPED \<Longrightarrow> stop j w = (w, True)"
  by (simp add: stop_def)

subsection \<open>Reconnection\<close>

lemma backoff_mono: "c \<le> c' \<Longrightarrow> backoff_delay c \<le> backoff_delay c'"
  by (simp add: backoff_delay_def min_le_iff_disj power_increasing)

lemma backoff_table:
  "map backoff_delay [1..<13] = [2, 4, 8, 16, 32, 60, 60, 60, 60, 60, 60, 60]"
  by (simp add: backoff_delay_def upt_rec)

text \<open>
  C1. With reconnection enabled, \<^verbatim>\<open>_handle_failure\<close> increments the reconnect counter
  (whatever the join inside \<^verbatim>\<open>stop\<close> finds). While the new value is below 10 it sleeps
  \<open>min (2 ^ counter) 60\<close> and starts the stream again, which is then Connecting with a new
  thread; from 10 on it neither sleeps nor starts, and the stream stays Stopped. The delay
  expression equals \<open>min (2 ^ c) 60\<close> for every \<open>c\<close> from 1 to 12 (2, 4, 8, 16, 32, then 60),
  never decreases as the counter grows and never exceeds 60.
\<close>

theorem handle_failure_backoff:
  assumes "reconnect (options w)"
  shows "reconnect_count (handle_failure j w) = reconnect_count w + 1
    \<and> (reconnect_count w + 1 < 10 \<longrightarrow>
          slept (handle_failure j w) = slept w @ [min (2 ^ (reconnect_count w + 1)) 60]
          \<and> threads (handle_failure j w) = threads w @ [thread_name w]
          \<and> state (handle_failure j w) = CONNECTING
          \<and> \<not> stop_event (handle_failure j w))
    \<and> (10 \<le> reconnect_count w + 1 \<longrightarrow>
          slept (handle_failure j w) = slept w
          \<and> threads (handle_failure j w) = threads w
          \<and> state (handle_failure j w) = STOPPED)
    \<and> (\<forall>c \<in> {1..12}. backoff_delay c = min (2 ^ c) 60)
    \<and> map backoff_delay [1..<13] = [2, 4, 8, 16, 32, 60, 60, 60, 60, 60, 60, 60]
    \<and> (\<forall>c c'. c \<le> c' \<longrightarrow> backoff_delay c \<le> backoff_delay c')
    \<and> (\<forall>c. backoff_delay c \<le> 60)"
proof -
  let ?s = "fst (stop j w)"
  have st: "state ?s = STOPPED" by (rule stop_result)
  have a: "reconnect_count (handle_failure j w) = reconnect_count w + 1"
    using assms by (simp add: handle_failure_def Let_def start_def set_state_def)
  have b: "reconnect_count w + 1 < 10 \<longrightarrow>
          slept (handle_failure j w) = slept w @ [min (2 ^ (reconnect_count w + 1)) 60]
          \<and> threads (handle_failure j w) = threads w @ [thread_name w]
          \<and> state (handle_failure j w) = CONNECTING
          \<and> \<not> stop_event (handle_failure j w)"
    using assms st
    by (simp add: handle_failure_def Let_def start_def set_state_def backoff_delay_def thread_name_def)
  have c: "10 \<le> reconnect_count w + 1 \<longrightarrow>
          slept (handle_failure j w) = slept w
          \<and> threads (handle_failure j w) = threads w
          \<and> state (handle_failure j w) = STOPPED"
    using assms st by (simp add: handle_failure_def Let_def)
  have d: "\<forall>c \<in> {1..12}. backoff_delay c = min (2 ^ c) 60" by (simp add: backoff_delay_def)
  have e: "\<forall>c. backoff_delay c \<le> 60" by (simp add: backoff_delay_def)
  show ?thesis using a b c d e backoff_table backoff_mono by blast
qed

theorem handle_failure_backoff_witness:
  "reconnect (options camera)
   \<and> reconnect_count (handle_failure Pending (camera\<lparr>state := CONNECTED\<rparr>)) = 1
   \<and> slept (handle_failure Pending (camera\<lparr>state := CONNECTED\<rparr>)) = [2]
   \<and> state (handle_failure Pending (camera\<lparr>state := CONNECTED\<rparr>)) = CONNECTING
   \<and> reconnect_count (handle_failure Pending (camera\<lparr>state := CONNECTED, reconnect_count := 9\<rparr>)) = 10
   \<and> slept (handle_failure Pending (camera\<lparr>state := CONNECTED, reconnect_count := 9\<rparr>)) = []
   \<and> state (handle_failure Pending (camera\<lparr>state := CONNECTED, reconnect_count := 9\<rparr>)) = STOPPED"
  using handle_failure_backoff [of "camera\<lparr>state := CONNECTED\<rparr>" Pending]
        handle_failure_backoff [of "camera\<lparr>state := CONNECTED, reconnect_count := 9\<rparr>" Pending]
  by (simp add: camera_def WebRtcStream_def)


subsection \<open>The ICE handler\<close>

text \<open>
  C4. When the handler runs for a stream whose transport reports the ICE state
  \<^verbatim>\<open>connected\<close>, the state becomes Connected, the start time is the current time and the
  reconnect counter is 0, whatever state and counter the stream had before.
\<close>

theorem ice_connected_resets:
  assumes "pc w = Some p" and "iceConnectionState p = ''connected''"
  shows "state (on_ice_state_change now w) = CONNECTED
     \<and> start_time (on_ice_state_change now w) = now
     \<and> reconnect_count (on_ice_state_change now w) = 0
     \<and> written (on_ice_state_change now w) = written w @ [CONNECTED]"
  using assms by (simp add: on_ice_state_change_def set_state_def)

theorem ice_connected_resets_witness:
  "pc (camera\<lparr>pc := Some \<lparr>iceConnectionState = ''connected''\<rparr>, reconnect_count := 7,
               state := CONNECTING\<rparr>) = Some \<lparr>iceConnectionState = ''connected''\<rparr>
   \<and> state (on_ice_state_change 42
        (camera\<lparr>pc := Some \<lparr>iceConnectionState = ''connected''\<rparr>, reconnect_count := 7,
                 state := CONNECTING\<rparr>)) = CONNECTED
   \<and> start_time (on_ice_state_change 42
        (camera\<lparr>pc := Some \<lparr>iceConnectionState = ''connected''\<rparr>, reconnect_count := 7,
                 state := CONNECTING\<rparr>)) = 42
   \<and> reconnect_count (on_ice_state_change 42
        (camera\<lparr>pc := Some \<lparr>iceConnectionState = ''connected''\<rparr>, reconnect_count := 7,
                 state := CONNECTING\<rparr>)) = 0"
  using ice_connected_resets
    [of "camera\<lparr>pc := Some \<lparr>iceConnectionState = ''connected''\<rparr>, reconnect_count := 7,
                 state := CONNECTING\<rparr>" "\<lparr>iceConnectionState = ''connected''\<rparr>" 42]
  by simp

subsection \<open>The info snapshot\<close>

lemma info_keys: "map fst (info now w) = info_fields"
  by (simp add: info_def info_fields_def)

text \<open>
  C10, as the code has it. \<^verbatim>\<open>enabled\<close> is true exactly when the state is not Disabled (so
  in each of the six other states), \<^verbatim>\<open>connected\<close> exactly when it is Connected, and
  \<^verbatim>\<open>get_info\<close> reports these two values under \<^verbatim>\<open>'enabled'\<close> and \<^verbatim>\<open>'connected'\<close>. Each of the
  eight field names yields a value; every other non-empty name yields \<^verbatim>\<open>None\<close>; the empty
  name, like no name, yields the whole snapshot.
\<close>

theorem get_info_flags:
  "(enabled_prop w \<longleftrightarrow> state w \<noteq> DISABLED)
   \<and> (state w \<in> {OFFLINE, STOPPING, STOPPED, CONNECTING, CONNECTED, INITIALIZING} \<longrightarrow> enabled_prop w)
   \<and> (connected_prop w \<longleftrightarrow> state w = CONNECTED)
   \<and> get_info now (Some ''enabled'') w = Field (Some (PyBool (state w \<noteq> DISABLED)))
   \<and> get_info now (Some ''connected'') w = Field (Some (PyBool (state w = CONNECTED)))
   \<and> (\<forall>k \<in> set info_fields. \<exists>v. get_info now (Some k) w = Field (Some v))
   \<and> (\<forall>k. k \<noteq> [] \<and> k \<notin> set info_fields \<longrightarrow> get_info now (Some k) w = Field None)
   \<and> get_info now (Some []) w = Snapshot (info now w)
   \<and> get_info now None w = Snapshot (info now w)
   \<and> length info_fields = 8 \<and> distinct info_fields"
proof -
  have a: "\<forall>k. k \<noteq> [] \<and> k \<notin> set info_fields \<longrightarrow> get_info now (Some k) w = Field None"
  proof (intro allI impI)
    fix k assume k: "k \<noteq> [] \<and> k \<notin> set info_fields"
    then have "k \<notin> fst ` set (info now w)" using info_keys [of now w] by (metis set_map)
    then have "map_of (info now w) k = None" by (simp add: map_of_eq_None_iff)
    with k show "get_info now (Some k) w = Field None" by (simp add: get_info_def)
  qed
  have b: "\<forall>k \<in> set info_fields. \<exists>v. get_info now (Some k) w = Field (Some v)"
    by (simp add: info_fields_def get_info_def info_def)
  have c: "get_info now (Some ''enabled'') w = Field (Some (PyBool (state w \<noteq> DISABLED)))"
     "get_info now (Some ''connected'') w = Field (Some (PyBool (state w = CONNECTED)))"
    by (simp_all add: get_info_def info_def enabled_prop_def connected_prop_def)
  have d: "state w \<in> {OFFLINE, STOPPING, STOPPED, CONNECTING, CONNECTED, INITIALIZING} \<longrightarrow> enabled_prop w"
    by (auto simp: enabled_prop_def)
  show ?thesis using a b c d
    by (simp add: enabled_prop_def connected_prop_def get_info_def info_fields_def)
qed

theorem get_info_flags_witness:
  "''bitrate'' \<noteq> [] \<and> ''bitrate'' \<notin> set info_fields
   \<and> get_info 5 (Some ''bitrate'') camera = Field None
   \<and> state camera \<in> {OFFLINE, STOPPING, STOPPED, CONNECTING, CONNECTED, INITIALIZING}
   \<and> enabled_prop camera
   \<and> ''uptime'' \<in> set info_fields
   \<and> get_info 5 (Some ''uptime'') camera = Field (Some (PyInt 0))"
  using get_info_flags [of camera 5]
  by (simp add: info_fields_def camera_def WebRtcStream_def get_info_def info_def)

text \<open>
  The sentence without the restriction to non-empty names (\<^verbatim>\<open>None\<close> for every name that
  is not one of the eight fields) fails for the empty name.
\<close>

theorem get_info_empty_name_counterexample:
  "[] \<notin> set info_fields \<and> get_info 5 (Some []) camera \<noteq> Field None"
  by (simp add: info_fields_def get_info_def)

subsection \<open>Histories of states\<close>

lemma follows_table_chain:
  "follows_table (a # xs) \<Longrightarrow> follows_table (last (a # xs) # ys) \<Longrightarrow> follows_table (a # xs @ ys)"
proof (induction xs arbitrary: a)
  case Nil
  then show ?case by simp
next
  case (Cons x xs)
  then show ?case by simp
qed

lemma follows_table_no_skip: "follows_table xs \<Longrightarrow> \<not> skips_stopping xs"
  by (induction xs rule: follows_table.induct) (auto simp: spec_transition_def)

lemma stop_state_last:
  "state (fst (stop j w)) = last (state w # (if state w = STOPPED then []
      else STOPPING # (if loop_thread w \<noteq> None \<and> j = Aborted then [STOPPED] else []) @ [STOPPED]))"
  by (simp add: stop_result)

lemma stop_follows:
  "follows_table (state w # (if state w = STOPPED then []
      else STOPPING # (if loop_thread w \<noteq> None \<and> j = Aborted then [STOPPED] else []) @ [STOPPED]))"
  by (simp add: spec_transition_def)

lemma handle_failure_written:
  "written (handle_failure j w) = written (fst (stop j w)) @
     (if reconnect (options w) \<and> reconnect_count w + 1 < 10 then [CONNECTING] else [])"
  using stop_result(2) [of j w]
  by (simp add: handle_failure_def Let_def start_def set_state_def)

lemma handle_failure_state:
  "state (handle_failure j w) =
     (if reconnect (options w) \<and> reconnect_count w + 1 < 10 then CONNECTING else STOPPED)"
  using stop_result(2) [of j w]
  by (simp add: handle_failure_def Let_def start_def set_state_def)

lemma steps_stop: "steps (\<lambda>w. fst (stop j w)) w"
  unfolding steps_def
  using stop_written [of j w] stop_state_last [of j w] stop_follows [of w j] by blast

lemma steps_handle_failure: "steps (handle_failure j) w"
proof -
  obtain ws where ws: "written (fst (stop j w)) = written w @ ws" "follows_table (state w # ws)"
     "STOPPED = last (state w # ws)"
    using steps_stop [of j w] stop_result(2) [of j w] unfolding steps_def by auto
  let ?t = "if reconnect (options w) \<and> reconnect_count w + 1 < 10 then [CONNECTING] else []"
  have 1: "written (handle_failure j w) = written w @ (ws @ ?t)"
    using handle_failure_written [of j w] ws(1) by simp
  have "follows_table (last (state w # ws) # ?t)"
    using ws(3) [symmetric] by (simp add: spec_transition_def)
  then have 2: "follows_table (state w # ws @ ?t)" using ws(2) follows_table_chain by blast
  have 3: "state (handle_failure j w) = last (state w # ws @ ?t)"
    using handle_failure_state [of j w] ws(3) by auto
  show ?thesis unfolding steps_def using 1 2 3 by blast
qed

lemma steps_id: "steps (\<lambda>w. w) w"
  unfolding steps_def by (intro exI [of _ "[]"]) simp

lemma steps_init: "steps (\<lambda>w. fst (init w)) w"
  unfolding steps_def
  by (intro exI [of _ "[INITIALIZING]"]) (simp add: init_def set_state_def spec_transition_def)

lemma steps_start: "steps (\<lambda>w. fst (start w)) w"
proof (cases "state w \<in> {STOPPED, INITIALIZING}")
  case True
  then show ?thesis unfolding steps_def
    by (intro exI [of _ "[CONNECTING]"]) (simp add: start_def Let_def set_state_def spec_transition_def)
next
  case False
  then show ?thesis unfolding steps_def
    by (intro exI [of _ "[]"]) (simp add: start_def)
qed

lemma steps_enable: "steps (\<lambda>w. fst (enable w)) w"
proof (cases "state w = DISABLED")
  case True
  then show ?thesis unfolding steps_def
    by (intro exI [of _ "[STOPPED]"]) (simp add: enable_def set_state_def spec_transition_def)
next
  case False
  then show ?thesis unfolding steps_def
    by (intro exI [of _ "[]"]) (simp add: enable_def)
qed

lemma steps_disable: "steps (\<lambda>w. fst (disable j w)) w"
proof -
  obtain ws where ws: "written (fst (stop j w)) = written w @ ws" "follows_table (state w # ws)"
     "state (fst (stop j w)) = last (state w # ws)"
    using steps_stop [of j w] unfolding steps_def by blast
  have l: "last (state w # ws) = STOPPED" using ws(3) stop_result(2) [of j w] by simp
  have "follows_table (last (state w # ws) # [DISABLED])"
    unfolding l by (simp add: spec_transition_def)
  then have 2: "follows_table (state w # ws @ [DISABLED])"
    using ws(2) by (rule follows_table_chain [rotated])
  have 1: "written (fst (disable j w)) = written w @ (ws @ [DISABLED])"
    using ws(1) by (simp add: disable_def set_state_def)
  have 3: "state (fst (disable j w)) = last (state w # ws @ [DISABLED])"
    by (simp add: disable_def)
  show ?thesis unfolding steps_def using 1 2 3 by blast
qed

lemma health_check_cases:
  "fst (health_check j w) = w \<or> fst (health_check j w) = handle_failure j w"
  by (simp add: health_check_def Let_def split: option.splits)

lemma steps_health_check: "steps (\<lambda>w. fst (health_check j w)) w"
  using health_check_cases [of j w] steps_id [of w] steps_handle_failure [of j w]
  unfolding steps_def by metis

lemma steps_run_call: "steps (run_call c) w"
proof (cases c)
  case Init
  then show ?thesis using steps_init [of w] by (simp add: steps_def)
next
  case Start
  then show ?thesis using steps_start [of w] by (simp add: steps_def)
next
  case (Stop j)
  then show ?thesis using steps_stop [of j w] by (simp add: steps_def)
next
  case Enable
  then show ?thesis using steps_enable [of w] by (simp add: steps_def)
next
  case (Disable j)
  then show ?thesis using steps_disable [of j w] by (simp add: steps_def)
next
  case (HealthCheck j)
  then show ?thesis using steps_health_check [of j w] by (simp add: steps_def)
qed

lemma steps_run_calls: "steps (run_calls cs) w"
proof (induction cs arbitrary: w)
  case Nil
  show ?case using steps_id [of w] by (simp add: run_calls_def steps_def)
next
  case (Cons c cs)
  obtain ws where a: "written (run_call c w) = written w @ ws" "follows_table (state w # ws)"
      "state (run_call c w) = last (state w # ws)"
    using steps_run_call [of c w] unfolding steps_def by blast
  obtain vs where b: "written (run_calls cs (run_call c w)) = written (run_call c w) @ vs"
      "follows_table (state (run_call c w) # vs)"
      "state (run_calls cs (run_call c w)) = last (state (run_call c w) # vs)"
    using Cons.IH [of "run_call c w"] unfolding steps_def by blast
  have e: "run_calls (c # cs) w = run_calls cs (run_call c w)" by (simp add: run_calls_def)
  have 1: "written (run_calls (c # cs) w) = written w @ (ws @ vs)" using a(1) b(1) e by simp
  have "follows_table (last (state w # ws) # vs)" using b(2) unfolding a(3) .
  then have 2: "follows_table (state w # ws @ vs)"
    using a(2) by (rule follows_table_chain [rotated])
  have 3: "state (run_calls (c # cs) w) = last (state w # ws @ vs)"
    unfolding e b(3) a(3) by (cases vs) simp_all
  show ?case unfolding steps_def using 1 2 3 by blast
qed

subsection \<open>Values of the concrete runs\<close>

lemmas run_defs = camera_def WebRtcStream_def good_attempt_def refused_attempt_def
  tracks_arrived_def connected_episode_def run_event_loop_begin_def connect_webrtc_begin_def
  connect_webrtc_try_def KvsSignalingClient_init_def start_def set_state_def thread_name_def
  on_track_def handle_media_tracks_def mkfifo_eq video_pipe_path_def audio_pipe_path_def
  ice_state_becomes_def on_ice_state_change_def Let_def

lemma tracks_arrived_fields:
  "state tracks_arrived = CONNECTING" "video_track tracks_arrived = Some 1"
  "audio_track tracks_arrived = Some 2" "files tracks_arrived = {}"
  "pc tracks_arrived = Some \<lparr>iceConnectionState = ''new''\<rparr>"
  "written tracks_arrived = [CONNECTING]" "uri tracks_arrived = ''cam''"
  "options tracks_arrived = \<lparr>audio = True, reconnect = True\<rparr>"
  "loop_thread tracks_arrived = Some ''webrtc_cam''" "reconnect_count tracks_arrived = 0"
  "video_pipe tracks_arrived = None" "audio_pipe tracks_arrived = None"
  "threads tracks_arrived = [''webrtc_cam'']" "slept tracks_arrived = []"
  "stop_event tracks_arrived = False" "signaling tracks_arrived \<noteq> None"
  by (simp_all add: run_defs)

lemma connected_episode_fields:
  "state connected_episode = CONNECTED"
  "video_pipe connected_episode = Some ''/tmp/cam_video.pipe''"
  "audio_pipe connected_episode = Some ''/tmp/cam_audio.pipe''"
  "files connected_episode = {''/tmp/cam_video.pipe'', ''/tmp/cam_audio.pipe''}"
  "ffmpeg_process connected_episode = Some \<lparr>has_audio = True, returncode = None\<rparr>"
  "pc connected_episode = Some \<lparr>iceConnectionState = ''connected''\<rparr>"
  "written connected_episode = [CONNECTING, CONNECTED]"
  "start_time connected_episode = 100" "reconnect_count connected_episode = 0"
  "loop_thread connected_episode = Some ''webrtc_cam''"
  "options connected_episode = \<lparr>audio = True, reconnect = True\<rparr>"
  "uri connected_episode = ''cam''" "signaling connected_episode \<noteq> None"
  "threads connected_episode = [''webrtc_cam'']" "slept connected_episode = []"
  by (simp_all add: run_defs insert_commute)

lemma run_example:
  "written (run_calls [Stop Aborted, Start, Disable Pending, Enable] connected_episode)
     = [CONNECTING, CONNECTED, STOPPING, STOPPED, STOPPED, CONNECTING, STOPPING, STOPPED,
        DISABLED, STOPPED]"
  by (simp add: run_calls_def stop_def disable_def enable_def start_def set_state_def Let_def
        connected_episode_fields thread_name_def)

subsection \<open>The state machine\<close>

lemma writes_of_call:
  assumes "written (run_call c w) = written w @ vs"
  shows "writes_of (Call c) w = vs"
  using assms by (simp add: writes_of_def)

lemma calls_step_along_all: "calls_step_along es w"
proof (induction es arbitrary: w)
  case Nil
  show ?case by simp
next
  case (Cons e es)
  show ?case
  proof (cases e)
    case (Call c)
    obtain ws where ws: "written (run_call c w) = written w @ ws" "follows_table (state w # ws)"
      using steps_run_call [of c w] unfolding steps_def by blast
    have n: "\<not> skips_stopping (state w # ws)" using ws(2) by (rule follows_table_no_skip)
    show ?thesis unfolding Call using ws n Cons.IH [of "run_event (Call c) w"]
      by (simp add: writes_of_call [OF ws(1)])
  next
    case (Ctx x)
    show ?thesis unfolding Ctx using Cons.IH [of "run_event (Ctx x) w"] by simp
  qed
qed

lemma run_events_calls: "list_all is_call es \<Longrightarrow> \<exists>cs. run_events es w = run_calls cs w"
proof (induction es arbitrary: w)
  case Nil
  show ?case by (intro exI [of _ "[]"]) (simp add: run_events_def run_calls_def)
next
  case (Cons e es)
  then obtain c where c: "e = Call c" by (cases e) auto
  from Cons obtain cs where "run_events es (run_call c w) = run_calls cs (run_call c w)"
    by auto
  then show ?case unfolding c
    by (intro exI [of _ "c # cs"]) (simp add: run_events_def run_calls_def)
qed

text \<open>
  C2, as the code has it. Each public call (\<^verbatim>\<open>init\<close>, \<^verbatim>\<open>start\<close>, \<^verbatim>\<open>stop\<close>, \<^verbatim>\<open>enable\<close>,
  \<^verbatim>\<open>disable\<close>, \<^verbatim>\<open>health_check\<close> with its failure handling), wherever it stands in a sequence
  of calls and events of the connection context, moves the state only along transitions
  of the table of section 4.2, starting from the state it finds, and never takes
  Connected directly to Stopped; so a history in which only the calls assign the state
  follows the table. The context's own assignments are not bound by the table: its
  cleanup assigns Stopped directly from any state other than Stopped and Stopping, the
  \<^verbatim>\<open>except\<close> branch of \<^verbatim>\<open>_run_event_loop\<close> assigns Stopped from any state and at any later
  time (also over the Connecting of a later \<^verbatim>\<open>start\<close>), and the ICE handler assigns
  Connected from any state.
\<close>

theorem calls_follow_table:
  "calls_step_along es w
   \<and> (list_all is_call es \<longrightarrow>
        follows_table (state w # drop (length (written w)) (written (run_events es w)))
        \<and> \<not> skips_stopping (state w # drop (length (written w)) (written (run_events es w))))
   \<and> (state w \<notin> {STOPPED, STOPPING} \<longrightarrow>
        written (cleanup w) = written w @ [STOPPED] \<and> state (cleanup w) = STOPPED)
   \<and> written (run_ctx LoopAborts w) = written w @ [STOPPED]
   \<and> state (run_ctx LoopAborts w) = STOPPED
   \<and> (pc w \<noteq> None \<longrightarrow>
        written (run_ctx (IceState ''connected'' now) w) = written w @ [CONNECTED])"
proof -
  have a: "list_all is_call es \<longrightarrow>
        follows_table (state w # drop (length (written w)) (written (run_events es w)))
        \<and> \<not> skips_stopping (state w # drop (length (written w)) (written (run_events es w)))"
  proof
    assume "list_all is_call es"
    then obtain cs where cs: "run_events es w = run_calls cs w" using run_events_calls by blast
    obtain ws where ws: "written (run_calls cs w) = written w @ ws" "follows_table (state w # ws)"
      using steps_run_calls [of cs w] unfolding steps_def by blast
    have "\<not> skips_stopping (state w # ws)" using ws(2) by (rule follows_table_no_skip)
    then show "follows_table (state w # drop (length (written w)) (written (run_events es w)))
        \<and> \<not> skips_stopping (state w # drop (length (written w)) (written (run_events es w)))"
      unfolding cs using ws by simp
  qed
  have b: "state w \<notin> {STOPPED, STOPPING} \<longrightarrow>
        written (cleanup w) = written w @ [STOPPED] \<and> state (cleanup w) = STOPPED"
    by (simp add: cleanup_written cleanup_state)
  have c: "written (run_ctx LoopAborts w) = written w @ [STOPPED]"
     "state (run_ctx LoopAborts w) = STOPPED"
    by (simp_all add: set_state_def)
  have d: "pc w \<noteq> None \<longrightarrow>
        written (run_ctx (IceState ''connected'' now) w) = written w @ [CONNECTED]"
    by (auto simp: ice_state_becomes_def on_ice_state_change_def set_state_def)
  show ?thesis using calls_step_along_all a b c d by blast
qed

lemma late_abort_run:
  "written (run_events [Ctx (MediaTask LaunchFails), Ctx LoopAborts, Call Start, Call (Stop Pending)]
      tracks_arrived)
     = [CONNECTING, STOPPING, STOPPED, CONNECTING, STOPPED, CONNECTING, STOPPING, STOPPED]"
  by (simp add: run_events_def handle_media_tracks_def handle_failure_def stop_def start_def
        set_state_def Let_def mkfifo_eq video_pipe_path_def audio_pipe_path_def
        tracks_arrived_fields backoff_delay_def thread_name_def)

theorem calls_follow_table_witness:
  "calls_step_along [Ctx (MediaTask LaunchFails), Ctx LoopAborts, Call Start, Call (Stop Pending)]
      tracks_arrived
   \<and> written (run_events [Ctx (MediaTask LaunchFails), Ctx LoopAborts, Call Start, Call (Stop Pending)]
        tracks_arrived)
       = [CONNECTING, STOPPING, STOPPED, CONNECTING, STOPPED, CONNECTING, STOPPING, STOPPED]
   \<and> list_all is_call [Call (Stop Aborted), Call Start, Call (Disable Pending), Call Enable]
   \<and> follows_table (state connected_episode #
        drop (length (written connected_episode))
          (written (run_events [Call (Stop Aborted), Call Start, Call (Disable Pending), Call Enable]
             connected_episode)))
   \<and> state connected_episode \<notin> {STOPPED, STOPPING}
   \<and> written (cleanup connected_episode) = [CONNECTING, CONNECTED, STOPPED]
   \<and> pc connected_episode \<noteq> None
   \<and> written (run_ctx (IceState ''connected'' 300) connected_episode)
       = [CONNECTING, CONNECTED, CONNECTED]"
proof -
  note a = calls_follow_table
     [of "[Ctx (MediaTask LaunchFails), Ctx LoopAborts, Call Start, Call (Stop Pending)]"
         tracks_arrived 0]
  note b = calls_follow_table
     [of "[Call (Stop Aborted), Call Start, Call (Disable Pending), Call Enable]"
         connected_episode 300]
  have l: "list_all is_call [Call (Stop Aborted), Call Start, Call (Disable Pending), Call Enable]"
    by simp
  have s: "state connected_episode \<notin> {STOPPED, STOPPING}" "pc connected_episode \<noteq> None"
    by (simp_all add: connected_episode_fields)
  have 1: "calls_step_along [Ctx (MediaTask LaunchFails), Ctx LoopAborts, Call Start, Call (Stop Pending)]
      tracks_arrived" using a by blast
  have 2: "follows_table (state connected_episode #
        drop (length (written connected_episode))
          (written (run_events [Call (Stop Aborted), Call Start, Call (Disable Pending), Call Enable]
             connected_episode)))" using b l by blast
  have 3: "written (cleanup connected_episode) = [CONNECTING, CONNECTED, STOPPED]"
    using b s(1) by (simp add: connected_episode_fields)
  have 4: "written (run_ctx (IceState ''connected'' 300) connected_episode)
       = [CONNECTING, CONNECTED, CONNECTED]"
    using b s(2) by (simp add: connected_episode_fields)
  show ?thesis using 1 2 3 4 l s late_abort_run by blast
qed

text \<open>
  With the failure handling of the connection context included the property fails: when
  the transport of a connected episode reports \<^verbatim>\<open>failed\<close>, the handler's cleanup assigns
  Stopped right after Connected.
\<close>

theorem ice_failure_skips_stopping:
  "state connected_episode = CONNECTED
   \<and> written (ice_state_becomes ''failed'' 200 connected_episode) = [CONNECTING, CONNECTED, STOPPED]
   \<and> skips_stopping (written (ice_state_becomes ''failed'' 200 connected_episode))
   \<and> \<not> follows_table (written (ice_state_becomes ''failed'' 200 connected_episode))"
proof -
  have w: "written (ice_state_becomes ''failed'' 200 connected_episode)
             = [CONNECTING, CONNECTED, STOPPED]"
    by (simp add: ice_state_becomes_def on_ice_state_change_def connected_episode_fields
          cleanup_written)
  show ?thesis unfolding w by (simp add: connected_episode_fields spec_transition_def)
qed


subsection \<open>A refused credential lookup\<close>

text \<open>
  When a stream is started and the credential lookup returns a result other than \<^verbatim>\<open>ok\<close>,
  the connection attempt runs to its end with the stream Stopped (through Connecting),
  no file created and every resource slot empty; the reconnect counter is what it was,
  nothing sleeps and no further thread is started, because the \<^verbatim>\<open>except\<close> branch of
  \<^verbatim>\<open>_connect_webrtc\<close> does not call \<^verbatim>\<open>_handle_failure\<close>.
\<close>

lemma credential_failure_stops:
  assumes "state w \<in> {STOPPED, INITIALIZING}" and "result (signal_data a) \<noteq> Some ''ok''"
  shows "finished (run_event_loop_begin a (fst (start w)))
      \<and> state (world_of (run_event_loop_begin a (fst (start w)))) = STOPPED
      \<and> reconnect_count (world_of (run_event_loop_begin a (fst (start w)))) = reconnect_count w
      \<and> slept (world_of (run_event_loop_begin a (fst (start w)))) = slept w
      \<and> threads (world_of (run_event_loop_begin a (fst (start w)))) = threads w @ [thread_name w]
      \<and> written (world_of (run_event_loop_begin a (fst (start w)))) = written w @ [CONNECTING, STOPPED]
      \<and> files (world_of (run_event_loop_begin a (fst (start w)))) \<subseteq> files w
      \<and> released (world_of (run_event_loop_begin a (fst (start w))))"
proof -
  let ?s = "fst (start w)"
  let ?x = "set_state STOPPED (?s\<lparr>loop := Some True\<rparr>)"
  have r: "run_event_loop_begin a ?s = Finished ((cleanup ?x)\<lparr>loop := None\<rparr>)"
    using assms(2)
    by (simp add: run_event_loop_begin_def connect_webrtc_begin_def connect_webrtc_try_def)
  have s: "state ?s = CONNECTING" "written ?s = written w @ [CONNECTING]"
     "threads ?s = threads w @ [thread_name w]" "reconnect_count ?s = reconnect_count w"
     "slept ?s = slept w" "files ?s = files w"
    using assms(1) by (simp_all add: start_def Let_def set_state_def thread_name_def)
  have x: "state ?x = STOPPED" "written ?x = written w @ [CONNECTING, STOPPED]"
     "threads ?x = threads w @ [thread_name w]" "reconnect_count ?x = reconnect_count w"
     "slept ?x = slept w" "files ?x = files w"
    using s by (simp_all add: set_state_def)
  have c: "state (cleanup ?x) = STOPPED" "written (cleanup ?x) = written w @ [CONNECTING, STOPPED]"
     "files (cleanup ?x) \<subseteq> files w" "released (cleanup ?x)"
    using x cleanup_state [of ?x] cleanup_written [of ?x] cleanup_files [of ?x] cleanup_released [of ?x]
    by auto
  have k: "threads (cleanup ?x) = threads w @ [thread_name w]"
     "reconnect_count (cleanup ?x) = reconnect_count w" "slept (cleanup ?x) = slept w"
    using x by simp_all
  show ?thesis unfolding r using c k by (simp add: released_def)
qed

lemma refused_run:
  "run_event_loop_begin refused_attempt (fst (start camera)) =
     Finished ((cleanup (set_state STOPPED ((fst (start camera))\<lparr>loop := Some True\<rparr>)))\<lparr>loop := None\<rparr>)"
  by (simp add: run_event_loop_begin_def connect_webrtc_begin_def connect_webrtc_try_def
        refused_attempt_def good_attempt_def)

text \<open>
  C3, where the code departs from it. The camera has reconnection switched on and its
  counter at 0; it is started and the credential lookup is refused. The attempt ends
  with the stream Stopped and no pipe file, as the specification says, but the failure
  is not counted: the counter is still 0, not 1, and neither a backoff sleep nor a
  restart follows.
\<close>

theorem credential_failure_counter_unchanged:
  "reconnect (options camera)
   \<and> snd (start camera)
   \<and> result (signal_data refused_attempt) \<noteq> Some ''ok''
   \<and> finished (run_event_loop_begin refused_attempt (fst (start camera)))
   \<and> state (world_of (run_event_loop_begin refused_attempt (fst (start camera)))) = STOPPED
   \<and> files (world_of (run_event_loop_begin refused_attempt (fst (start camera)))) = {}
   \<and> reconnect_count (world_of (run_event_loop_begin refused_attempt (fst (start camera)))) = 0
   \<and> reconnect_count (world_of (run_event_loop_begin refused_attempt (fst (start camera))))
       \<noteq> reconnect_count camera + 1
   \<and> slept (world_of (run_event_loop_begin refused_attempt (fst (start camera)))) = []
   \<and> threads (world_of (run_event_loop_begin refused_attempt (fst (start camera))))
       = [''webrtc_cam'']"
proof -
  have h: "state camera \<in> {STOPPED, INITIALIZING}"
          "result (signal_data refused_attempt) \<noteq> Some ''ok''"
    by (simp_all add: camera_def WebRtcStream_def refused_attempt_def good_attempt_def)
  have f: "reconnect_count camera = 0" "threads camera = []" "files camera = {}"
          "thread_name camera = ''webrtc_cam''" "slept camera = []"
          "reconnect (options camera)"
    by (simp_all add: camera_def WebRtcStream_def thread_name_def)
  have a: "snd (start camera)" by (simp add: camera_def WebRtcStream_def start_def Let_def)
  show ?thesis using a h f(6) credential_failure_stops [OF h] unfolding f(1-5) by simp
qed

subsection \<open>Stopping and the resources\<close>

lemma set_state_keeps [simp]:
  "loop_thread (set_state v w) = loop_thread w" "files (set_state v w) = files w"
  "video_pipe (set_state v w) = video_pipe w" "audio_pipe (set_state v w) = audio_pipe w"
  "pc (set_state v w) = pc w" "signaling (set_state v w) = signaling w"
  "ffmpeg_process (set_state v w) = ffmpeg_process w"
  "video_track (set_state v w) = video_track w" "audio_track (set_state v w) = audio_track w"
  "written (set_state v w) = written w @ [v]"
  by (simp_all add: set_state_def)

text \<open>
  \<^verbatim>\<open>stop\<close> returns true from every state and leaves the stream Stopped, and a second
  \<^verbatim>\<open>stop\<close> changes nothing. When the connection context unwinds during the join, its
  cleanup has released everything by the time \<^verbatim>\<open>stop\<close> returns.
\<close>

lemma stop_idempotent:
  "snd (stop j w) \<and> state (fst (stop j w)) = STOPPED
   \<and> stop j' (fst (stop j w)) = (fst (stop j w), True)"
  by (simp add: stop_result stop_stopped)

lemma stop_unwound_releases:
  assumes "state w \<noteq> STOPPED" and "loop_thread w \<noteq> None"
  shows "released (fst (stop Unwound w)) \<and> files (fst (stop Unwound w)) = files w - pipe_names w"
proof -
  let ?x = "(set_state STOPPING w)\<lparr>stop_event := True\<rparr>"
  have e: "fst (stop Unwound w) = set_state STOPPED ((cleanup ?x)\<lparr>loop := None, loop_thread := None\<rparr>)"
    using assms by (auto simp: stop_def Let_def)
  have p: "pipe_names ?x = pipe_names w" "files ?x = files w"
    by (simp_all add: pipe_names_def)
  show ?thesis unfolding e using cleanup_released [of ?x] cleanup_files [of ?x] p
    by (simp add: released_def)
qed

text \<open>
  C7, where the code departs from it. The media task of the running camera has created
  both pipes and then fails (the subprocess does not launch, or a pump raises). The
  failure handling stops the stream on the context's own thread and starts it again: no
  cleanup runs, both pipe files and both pipe names are still there, and the stop flag is
  clear again, so the wait loop of the old coroutine is not left on account of this stop.
  With the failing pump the subprocess slot stays filled as well.
\<close>

theorem media_failure_leaves_pipes:
  "video_pipe (handle_media_tracks LaunchFails tracks_arrived) = Some ''/tmp/cam_video.pipe''
   \<and> audio_pipe (handle_media_tracks LaunchFails tracks_arrived) = Some ''/tmp/cam_audio.pipe''
   \<and> files (handle_media_tracks LaunchFails tracks_arrived)
        = {''/tmp/cam_video.pipe'', ''/tmp/cam_audio.pipe''}
   \<and> video_track (handle_media_tracks LaunchFails tracks_arrived) = Some 1
   \<and> state (handle_media_tracks LaunchFails tracks_arrived) = CONNECTING
   \<and> \<not> stop_event (handle_media_tracks LaunchFails tracks_arrived)
   \<and> written (handle_media_tracks LaunchFails tracks_arrived)
        = [CONNECTING, STOPPING, STOPPED, CONNECTING]
   \<and> slept (handle_media_tracks LaunchFails tracks_arrived) = [2]
   \<and> threads (handle_media_tracks LaunchFails tracks_arrived) = [''webrtc_cam'', ''webrtc_cam'']
   \<and> ffmpeg_process (handle_media_tracks PumpFails tracks_arrived)
        = Some \<lparr>has_audio = True, returncode = None\<rparr>
   \<and> files (handle_media_tracks PumpFails tracks_arrived)
        = {''/tmp/cam_video.pipe'', ''/tmp/cam_audio.pipe''}
   \<and> \<not> released (handle_media_tracks PumpFails tracks_arrived)"
  by (simp add: handle_media_tracks_def handle_failure_def stop_def start_def set_state_def
        Let_def mkfifo_eq video_pipe_path_def audio_pipe_path_def tracks_arrived_fields
        backoff_delay_def thread_name_def released_def insert_commute)

text \<open>
  C8, where the code departs from it. \<^verbatim>\<open>stop\<close> is called twice on the connected episode
  and the context does not get to its cleanup (the loop is stopped under the coroutine,
  as line 163 asks, or the join returns early): both calls return true and leave the
  stream Stopped, and after each of them the peer connection, the subprocess and both
  pipe files are still held.
\<close>

theorem stop_twice_keeps_resources:
  "snd (stop Aborted connected_episode)
   \<and> snd (stop Aborted (fst (stop Aborted connected_episode)))
   \<and> state (fst (stop Aborted connected_episode)) = STOPPED
   \<and> state (fst (stop Aborted (fst (stop Aborted connected_episode)))) = STOPPED
   \<and> \<not> released (fst (stop Aborted connected_episode))
   \<and> \<not> released (fst (stop Aborted (fst (stop Aborted connected_episode))))
   \<and> files (fst (stop Aborted (fst (stop Aborted connected_episode))))
        = {''/tmp/cam_video.pipe'', ''/tmp/cam_audio.pipe''}
   \<and> ffmpeg_process (fst (stop Aborted (fst (stop Aborted connected_episode))))
        = Some \<lparr>has_audio = True, returncode = None\<rparr>
   \<and> pc (fst (stop Aborted (fst (stop Aborted connected_episode))))
        = Some \<lparr>iceConnectionState = ''connected''\<rparr>
   \<and> \<not> released (fst (stop Pending (fst (stop Pending connected_episode))))"
  by (simp add: stop_def set_state_def Let_def connected_episode_fields released_def)



subsection \<open>The signaling URL\<close>

lemma sublist_single: "sublist [x] u \<longleftrightarrow> x \<in> set u"
  by (auto simp: sublist_def in_set_conv_decomp)

text \<open>
  C9. A signaling URL that contains the marker \<^verbatim>\<open>X-Amz-\<close> is used exactly as given.
  Otherwise the quoted client identifier and the quoted token are appended as
  \<^verbatim>\<open>ClientId=\<close> and \<^verbatim>\<open>signalToken=\<close>, after \<^verbatim>\<open>&\<close> when the URL already contains \<^verbatim>\<open>?\<close> and
  after \<^verbatim>\<open>?\<close> when it does not.
\<close>

theorem signaling_url_built:
  "(sublist ''X-Amz-'' u \<longleftrightarrow> (\<exists>a b. u = a @ ''X-Amz-'' @ b))
   \<and> (sublist ''?'' u \<longleftrightarrow> CHR ''?'' \<in> set u)
   \<and> (sublist ''X-Amz-'' u \<longrightarrow> url (KvsSignalingClient_init q u c t) = u)
   \<and> (\<not> sublist ''X-Amz-'' u \<and> sublist ''?'' u \<longrightarrow>
        url (KvsSignalingClient_init q u c t) = u @ ''&ClientId='' @ q c @ ''&signalToken='' @ q t)
   \<and> (\<not> sublist ''X-Amz-'' u \<and> \<not> sublist ''?'' u \<longrightarrow>
        url (KvsSignalingClient_init q u c t) = u @ ''?ClientId='' @ q c @ ''&signalToken='' @ q t)
   \<and> client_id (KvsSignalingClient_init q u c t) = c"
  by (simp add: KvsSignalingClient_init_def sublist_single) (simp add: sublist_def)

theorem signaling_url_built_witness:
  "sublist ''X-Amz-'' ''wss://kvs/?X-Amz-Signature=ab''
   \<and> url (KvsSignalingClient_init (\<lambda>s. if s = ''a b'' then ''a%20b'' else s)
            ''wss://kvs/?X-Amz-Signature=ab'' ''a b'' ''tok'') = ''wss://kvs/?X-Amz-Signature=ab''
   \<and> \<not> sublist ''X-Amz-'' ''wss://wyze/ws?v=1'' \<and> sublist ''?'' ''wss://wyze/ws?v=1''
   \<and> url (KvsSignalingClient_init (\<lambda>s. if s = ''a b'' then ''a%20b'' else s)
            ''wss://wyze/ws?v=1'' ''a b'' ''tok'') = ''wss://wyze/ws?v=1&ClientId=a%20b&signalToken=tok''
   \<and> \<not> sublist ''X-Amz-'' ''wss://wyze/ws'' \<and> \<not> sublist ''?'' ''wss://wyze/ws''
   \<and> url (KvsSignalingClient_init (\<lambda>s. if s = ''a b'' then ''a%20b'' else s)
            ''wss://wyze/ws'' ''a b'' ''tok'') = ''wss://wyze/ws?ClientId=a%20b&signalToken=tok''"
proof -
  have s: "sublist ''X-Amz-'' ''wss://kvs/?X-Amz-Signature=ab''"
     "\<not> sublist ''X-Amz-'' ''wss://wyze/ws?v=1''" "sublist ''?'' ''wss://wyze/ws?v=1''"
     "\<not> sublist ''X-Amz-'' ''wss://wyze/ws''" "\<not> sublist ''?'' ''wss://wyze/ws''"
    by (simp_all add: sublist_Cons_right)
  show ?thesis
    using s
      signaling_url_built [of "''wss://kvs/?X-Amz-Signature=ab''" "\<lambda>s. if s = ''a b'' then ''a%20b'' else s" "''a b''" "''tok''"]
      signaling_url_built [of "''wss://wyze/ws?v=1''" "\<lambda>s. if s = ''a b'' then ''a%20b'' else s" "''a b''" "''tok''"]
      signaling_url_built [of "''wss://wyze/ws''" "\<lambda>s. if s = ''a b'' then ''a%20b'' else s" "''a b''" "''tok''"]
    by simp
qed


subsection \<open>Malformed inbound messages\<close>

lemma except_Exception_simps [simp]:
  "except_Exception None = None"
  "is_Exception e \<Longrightarrow> except_Exception (Some e) = None"
  "except_Exception (Some CancelledError) = Some CancelledError"
  by (simp_all add: except_Exception_def)

lemma except_Exception_idem [simp]: "except_Exception (except_Exception r) = except_Exception r"
  by (auto simp: except_Exception_def split: option.splits)

lemma except_Exception_Some: "except_Exception r = Some e \<Longrightarrow> \<not> is_Exception e"
  by (auto simp: except_Exception_def split: option.splits if_splits)

lemma decode_payload_malformed:
  "payload_malformed cd p \<Longrightarrow> \<exists>e. decode_payload cd p = Inl e \<and> is_Exception e"
  by (cases p) (auto simp: payload_malformed_def decode_payload_def split: option.splits)

lemma handle_message_malformed:
  assumes "payload_malformed cd (dict_get d ''messagePayload'')"
  shows "handle_message cd c (JObj d) = ([], None)"
proof -
  obtain e where e: "decode_payload cd (dict_get d ''messagePayload'') = Inl e" "is_Exception e"
    using decode_payload_malformed [OF assms] by blast
  show ?thesis using e by (simp add: handle_message_def Let_def split: option.splits)
qed

lemma handle_message_not_dict:
  "\<forall>d. data \<noteq> JObj d \<Longrightarrow> handle_message cd c data = ([], Some AttributeError)"
  by (cases data) (simp_all add: handle_message_def)

lemma receive_one_malformed:
  assumes "malformed cd fr"
  shows "receive_one cd c fr = ([], None)"
proof (cases "frame_text cd fr")
  case (Inl e)
  then have "e = UnicodeDecodeError"
    by (auto simp: frame_text_def split: frame.splits option.splits)
  with Inl show ?thesis by (simp add: receive_one_def)
next
  case (Inr message)
  have m: "json_loads cd message = None
        \<or> (\<exists>d. json_loads cd message = Some (JObj d) \<and> payload_malformed cd (dict_get d ''messagePayload''))"
    using assms Inr
    by (auto simp: malformed_def frame_text_def split: frame.splits option.splits json.splits)
  then show ?thesis
  proof
    assume "json_loads cd message = None"
    with Inr show ?thesis by (simp add: receive_one_def)
  next
    assume "\<exists>d. json_loads cd message = Some (JObj d) \<and> payload_malformed cd (dict_get d ''messagePayload'')"
    then obtain d where d: "json_loads cd message = Some (JObj d)"
        "payload_malformed cd (dict_get d ''messagePayload'')" by blast
    show ?thesis using Inr d handle_message_malformed [OF d(2), of c]
      by (simp add: receive_one_def)
  qed
qed

lemma receive_loop_filter:
  "receive_loop cd c frs = receive_loop cd c (filter (\<lambda>fr. \<not> malformed cd fr) frs)"
proof (induction frs)
  case Nil
  show ?case by simp
next
  case (Cons fr frs)
  show ?case
  proof (cases "malformed cd fr")
    case True
    then show ?thesis using Cons receive_one_malformed [of cd fr c]
      by (simp split: prod.splits)
  next
    case False
    then show ?thesis using Cons by simp
  qed
qed

lemma receive_one_escape: "snd (receive_one cd c fr) = Some e \<Longrightarrow> \<not> is_Exception e"
  by (auto simp: receive_one_def dest: except_Exception_Some split: sum.splits option.splits prod.splits if_splits)

lemma receive_loop_escape: "snd (receive_loop cd c frs) = Some e \<Longrightarrow> \<not> is_Exception e"
proof (induction frs)
  case Nil
  then show ?case by simp
next
  case (Cons fr frs)
  then show ?case
    by (auto dest: except_Exception_Some split: prod.splits option.splits)
qed

text \<open>
  C6, as the code has it. An inbound message that fails to decode at some layer (the
  frame is not text or \<^verbatim>\<open>json.loads\<close> raises on it; its payload is missing or not a string;
  \<^verbatim>\<open>base64.b64decode\<close> raises on the payload; the decoded bytes are not text or
  \<^verbatim>\<open>json.loads\<close> raises on them) makes its turn of the receive loop end with no callback
  invoked and no exception. The receive loop behaves as if such frames had not been
  sent, so frames that all fail to decode leave it with no callback invoked and no
  exception; and the only exception that can leave the loop at all is a
  \<^verbatim>\<open>BaseException\<close> raised by a callback. What the decoders accept is decoded and handed
  to the callback, whether or not it is base64 or JSON by the standards.
\<close>

theorem malformed_dropped:
  "(malformed cd fr \<longrightarrow> receive_one cd c fr = ([], None))
   \<and> receive_loop cd c frs = receive_loop cd c (filter (\<lambda>fr. \<not> malformed cd fr) frs)
   \<and> ((\<forall>fr \<in> set frs. malformed cd fr) \<longrightarrow> receive_loop cd c frs = ([], None))
   \<and> (\<forall>e. snd (receive_loop cd c frs) = Some e \<longrightarrow> \<not> is_Exception e)"
proof -
  have "(\<forall>fr \<in> set frs. malformed cd fr) \<longrightarrow> receive_loop cd c frs = ([], None)"
  proof
    assume "\<forall>fr \<in> set frs. malformed cd fr"
    then have "filter (\<lambda>fr. \<not> malformed cd fr) frs = []" by (simp add: filter_empty_conv)
    then show "receive_loop cd c frs = ([], None)" using receive_loop_filter [of cd c frs] by simp
  qed
  then show ?thesis
    using receive_one_malformed receive_loop_filter receive_loop_escape by blast
qed


lemma py_b64decode_runs:
  "py_b64decode ''eyJzZHAiOiJ2PTAifQ=='' = Some sdp_text"
  "py_b64decode ''!eyJzZHAiOiJ2PTAifQ=='' = Some sdp_text"
  "py_b64decode ''eyJzZHAiOiJ2PTAifQ'' = None"
  "py_b64decode ''!!'' = Some []"
  by (simp_all add: py_b64decode_def b64_value_def sdp_text_def dq_def char_of_def bit_Suc_0_iff)

lemma py_loads:
  "json_loads py_codec sdp_text = Some (JObj [(''sdp'', JStr ''v=0'')])"
  "json_loads py_codec (envelope ''SDP_ANSWER'' ''eyJzZHAiOiJ2PTAifQ=='') =
     Some (JObj [(''messageType'', JStr ''SDP_ANSWER''), (''messagePayload'', JStr ''eyJzZHAiOiJ2PTAifQ=='')])"
  "json_loads py_codec (envelope ''SDP_ANSWER'' ''!eyJzZHAiOiJ2PTAifQ=='') =
     Some (JObj [(''messageType'', JStr ''SDP_ANSWER''), (''messagePayload'', JStr ''!eyJzZHAiOiJ2PTAifQ=='')])"
  "json_loads py_codec (envelope ''SDP_ANSWER'' ''eyJzZHAiOiJ2PTAifQ'') =
     Some (JObj [(''messageType'', JStr ''SDP_ANSWER''), (''messagePayload'', JStr ''eyJzZHAiOiJ2PTAifQ'')])"
  "json_loads py_codec (envelope ''SDP_ANSWER'' ''!!'') =
     Some (JObj [(''messageType'', JStr ''SDP_ANSWER''), (''messagePayload'', JStr ''!!'')])"
  "json_loads py_codec candidate_without_payload =
     Some (JObj [(''messageType'', JStr ''ICE_CANDIDATE'')])"
  "json_loads py_codec ''garbage'' = None"
  "json_loads py_codec [] = None"
  by (simp_all add: py_codec_def envelope_def sdp_text_def candidate_without_payload_def dq_def)

lemma py_codec_fields:
  "b64decode py_codec = py_b64decode"
  "utf8_decode py_codec [] = Some []"
  "utf8_decode py_codec sdp_text
     = Some sdp_text"
  by (simp_all add: py_codec_def sdp_text_def dq_def)

lemma py_malformed:
  "malformed py_codec (TextFrame (envelope ''SDP_ANSWER'' ''eyJzZHAiOiJ2PTAifQ''))"
  "malformed py_codec (TextFrame (envelope ''SDP_ANSWER'' ''!!''))"
  "malformed py_codec (TextFrame candidate_without_payload)"
  "malformed py_codec (TextFrame ''garbage'')"
  "\<not> malformed py_codec (TextFrame (envelope ''SDP_ANSWER'' ''eyJzZHAiOiJ2PTAifQ==''))"
  "\<not> malformed py_codec (TextFrame (envelope ''SDP_ANSWER'' ''!eyJzZHAiOiJ2PTAifQ==''))"
  by (simp_all add: malformed_def payload_malformed_def dict_get_def py_loads py_codec_fields
        py_b64decode_runs)

lemma listening_callbacks:
  "on_answer listening_client = Some (\<lambda>v. None)"
  "on_ice_candidate listening_client = Some (\<lambda>v. None)"
  by (simp_all add: listening_client_def)

lemma decode_runs:
  "decode_payload py_codec (JStr ''eyJzZHAiOiJ2PTAifQ=='')
     = Inr (sdp_text, JObj [(''sdp'', JStr ''v=0'')])"
  "decode_payload py_codec (JStr ''!eyJzZHAiOiJ2PTAifQ=='')
     = Inr (sdp_text, JObj [(''sdp'', JStr ''v=0'')])"
  by (simp_all add: decode_payload_def py_loads py_codec_fields py_b64decode_runs)

lemma envelope_not_blank: "\<not> list_all py_isspace (envelope t p)" "envelope t p \<noteq> []"
  by (simp_all add: envelope_def py_isspace_def)

lemma answer_runs:
  "receive_one py_codec listening_client (TextFrame (envelope ''SDP_ANSWER'' ''eyJzZHAiOiJ2PTAifQ==''))
     = ([AnswerCall (JStr ''v=0'')], None)"
  "receive_one py_codec listening_client (TextFrame (envelope ''SDP_ANSWER'' ''!eyJzZHAiOiJ2PTAifQ==''))
     = ([AnswerCall (JStr ''v=0'')], None)"
proof -
  have h: "handle_message py_codec listening_client
             (JObj [(''messageType'', JStr ''SDP_ANSWER''), (''messagePayload'', JStr ''eyJzZHAiOiJ2PTAifQ=='')])
            = ([AnswerCall (JStr ''v=0'')], None)"
     "handle_message py_codec listening_client
             (JObj [(''messageType'', JStr ''SDP_ANSWER''), (''messagePayload'', JStr ''!eyJzZHAiOiJ2PTAifQ=='')])
            = ([AnswerCall (JStr ''v=0'')], None)"
    by (simp_all add: handle_message_def dict_get_def listening_callbacks decode_runs)
  show "receive_one py_codec listening_client (TextFrame (envelope ''SDP_ANSWER'' ''eyJzZHAiOiJ2PTAifQ==''))
     = ([AnswerCall (JStr ''v=0'')], None)"
    by (simp add: receive_one_def frame_text_def envelope_not_blank py_loads h)
  show "receive_one py_codec listening_client (TextFrame (envelope ''SDP_ANSWER'' ''!eyJzZHAiOiJ2PTAifQ==''))
     = ([AnswerCall (JStr ''v=0'')], None)"
    by (simp add: receive_one_def frame_text_def envelope_not_blank py_loads h)
qed

theorem malformed_dropped_witness:
  "malformed py_codec (TextFrame (envelope ''SDP_ANSWER'' ''eyJzZHAiOiJ2PTAifQ''))
   \<and> receive_one py_codec listening_client
        (TextFrame (envelope ''SDP_ANSWER'' ''eyJzZHAiOiJ2PTAifQ'')) = ([], None)
   \<and> malformed py_codec (TextFrame (envelope ''SDP_ANSWER'' ''!!''))
   \<and> malformed py_codec (TextFrame candidate_without_payload)
   \<and> malformed py_codec (TextFrame ''garbage'')
   \<and> \<not> malformed py_codec (TextFrame (envelope ''SDP_ANSWER'' ''eyJzZHAiOiJ2PTAifQ==''))
   \<and> receive_loop py_codec listening_client
        [TextFrame (envelope ''SDP_ANSWER'' ''eyJzZHAiOiJ2PTAifQ''),
         TextFrame (envelope ''SDP_ANSWER'' ''eyJzZHAiOiJ2PTAifQ==''),
         TextFrame (envelope ''SDP_ANSWER'' ''!!''),
         TextFrame candidate_without_payload,
         TextFrame ''garbage'']
       = ([AnswerCall (JStr ''v=0'')], None)"
proof -
  let ?bad = "TextFrame (envelope ''SDP_ANSWER'' ''eyJzZHAiOiJ2PTAifQ'')"
  let ?good = "TextFrame (envelope ''SDP_ANSWER'' ''eyJzZHAiOiJ2PTAifQ=='')"
  let ?frs = "[?bad, ?good, TextFrame (envelope ''SDP_ANSWER'' ''!!''),
         TextFrame candidate_without_payload,
         TextFrame ''garbage'']"
  note t = malformed_dropped [of py_codec ?bad listening_client ?frs]
  have b: "receive_one py_codec listening_client ?bad = ([], None)"
    using t py_malformed(1) by blast
  have f: "filter (\<lambda>fr. \<not> malformed py_codec fr) ?frs = [?good]"
    using py_malformed by simp
  have "receive_loop py_codec listening_client ?frs
          = receive_loop py_codec listening_client (filter (\<lambda>fr. \<not> malformed py_codec fr) ?frs)"
    using t by blast
  then have l: "receive_loop py_codec listening_client ?frs = ([AnswerCall (JStr ''v=0'')], None)"
    unfolding f using answer_runs(1) by simp
  show ?thesis using py_malformed b l by blast
qed

text \<open>
  The sentence with "invalid base64" read as the standard has it fails: a payload with a
  stray \<^verbatim>\<open>!\<close> in front is not base64, the decoder the code calls skips the character, and
  the answer callback is invoked with the decoded description.
\<close>

theorem invalid_base64_reaches_callback:
  "\<not> valid_base64 ''!eyJzZHAiOiJ2PTAifQ==''
   \<and> on_answer listening_client \<noteq> None
   \<and> receive_one py_codec listening_client
        (TextFrame (envelope ''SDP_ANSWER'' ''!eyJzZHAiOiJ2PTAifQ==''))
       = ([AnswerCall (JStr ''v=0'')], None)"
proof -
  have v: "\<not> valid_base64 ''!eyJzZHAiOiJ2PTAifQ==''"
    by (simp add: valid_base64_def b64_value_def)
  show ?thesis using v answer_runs(2) by (simp add: listening_callbacks)
qed

end
